theory Spec2Isabelle
  imports Main "HOL-Library.Sublist"
begin

section \<open>Data model\<close>

text \<open>
  The recurring tasks of \<^verbatim>\<open>chacra/async/recurring.py\<close> work on two tables (Repo and
  Binary), on the filesystem, on the Celery build queue and on the notification helpers
  \<^verbatim>\<open>post_queued\<close> and \<^verbatim>\<open>post_deleted\<close>. A Binary row points to the Repo that owns it;
  \<^verbatim>\<open>r.binaries\<close> are the Binary rows pointing to \<open>r\<close>. Timestamps are microseconds since
  the epoch. The column \<^verbatim>\<open>type\<close> is nullable: \<open>None\<close> is SQL NULL.
\<close>

record binary =
  bid :: nat
  repo_id :: nat
  bpath :: string

record repo =
  rid :: nat
  rtype :: "string option"
  needs_update :: bool
  is_queued :: bool
  is_updating :: bool
  path :: "string option"
  modified :: int

record database =
  repos :: "repo list"
  binaries :: "binary list"

definition binaries_of :: "database \<Rightarrow> repo \<Rightarrow> binary list" where
  "binaries_of db r = filter (\<lambda>b. repo_id b = rid r) (binaries db)"

text \<open>A call of \<^verbatim>\<open>task.apply_async((r.id,), countdown=..., queue=...)\<close>.\<close>

datatype task = create_rpm_repo | create_deb_repo

record job =
  task :: task
  args :: nat
  countdown :: int
  queue :: string

text \<open>
  \<^verbatim>\<open>post_queued(r)\<close> and \<^verbatim>\<open>post_deleted(r)\<close> live in \<^verbatim>\<open>chacra/async/__init__.py\<close>; the
  model records each call with the id of the repository it was made for.
\<close>

datatype notification = Queued nat | Deleted nat

text \<open>The attributes of \<^verbatim>\<open>pecan.conf\<close> that the tasks read; \<open>None\<close> is an unset attribute.\<close>

record conf =
  quiet_time :: int
  conf_purge_repos :: "bool option"
  callback_url :: "string option"
  callback_user :: "string option"
  callback_key :: "string option"
  callback_verify_ssl :: "bool option"

text \<open>
  The filesystem, as far as \<^verbatim>\<open>os.remove\<close> and \<^verbatim>\<open>shutil.rmtree\<close> observe it: a path is
  missing, present and removable, or present and failing with some \<^verbatim>\<open>errno\<close> when a
  removal is attempted (permissions, I/O errors, a busy mount). Removing a tree removes
  what lies under it.
\<close>

datatype errno = ENOENT | EACCES | EPERM | EBUSY | EIO

datatype fsobj = Missing | Present | Faulty errno

type_synonym filesystem = "string \<Rightarrow> fsobj"

definition os_remove :: "filesystem \<Rightarrow> string \<Rightarrow> errno + filesystem" where
  "os_remove f p =
     (case f p of
        Missing \<Rightarrow> Inl ENOENT
      | Faulty e \<Rightarrow> Inl e
      | Present \<Rightarrow> Inr (f(p := Missing)))"

definition under :: "string \<Rightarrow> string \<Rightarrow> bool" where
  "under p q = prefix (p @ ''/'') q"

definition shutil_rmtree :: "filesystem \<Rightarrow> string \<Rightarrow> errno + filesystem" where
  "shutil_rmtree f p =
     (case f p of
        Missing \<Rightarrow> Inl ENOENT
      | Faulty e \<Rightarrow> Inl e
      | Present \<Rightarrow> Inr (\<lambda>q. if q = p \<or> under p q then Missing else f q))"

text \<open>
  The state the tasks act on. \<open>stored\<close> is the committed database; \<open>session\<close> is the
  database as the task's open transaction sees it (attribute writes and flushed deletions
  included); \<^verbatim>\<open>models.commit()\<close> makes the session's view the stored one. A task starts
  with a session that shows the stored database.
\<close>

record world =
  stored :: database
  session :: database
  fs :: filesystem
  build_repos :: "job list"
  notifications :: "notification list"

definition begin_session :: "world \<Rightarrow> world" where
  "begin_session w = w\<lparr>session := stored w\<rparr>"

definition commit :: "world \<Rightarrow> world" where
  "commit w = w\<lparr>stored := session w\<rparr>"

text \<open>Writing the changed attributes of the mapped object \<open>r\<close> to its row.\<close>

definition save :: "repo \<Rightarrow> world \<Rightarrow> world" where
  "save r w =
     w\<lparr>session := (session w)
        \<lparr>repos := map (\<lambda>x. if rid x = rid r then r else x) (repos (session w))\<rparr>\<rparr>"

definition apply_async :: "job \<Rightarrow> world \<Rightarrow> world" where
  "apply_async j w = w\<lparr>build_repos := build_repos w @ [j]\<rparr>"

definition post_queued :: "repo \<Rightarrow> world \<Rightarrow> world" where
  "post_queued r w = w\<lparr>notifications := notifications w @ [Queued (rid r)]\<rparr>"

definition post_deleted :: "repo \<Rightarrow> world \<Rightarrow> world" where
  "post_deleted r w = w\<lparr>notifications := notifications w @ [Deleted (rid r)]\<rparr>"

section \<open>poll_repos\<close>

text \<open>
  \<^verbatim>\<open>Repo.infer_type\<close> is a method of the model class, which is not part of the sources at
  hand; it is the parameter \<open>infer\<close>, called with the object as it is at that point (with
  \<^verbatim>\<open>is_queued\<close> already set) and with its Binaries, and answering \<open>None\<close> or a type.

  The body of the loop, for one object \<open>r\<close> of the query's result. Only the row of \<open>r\<close>
  itself is written by its iteration, and it is written at \<^verbatim>\<open>models.commit()\<close>.
\<close>

definition poll_repo ::
  "conf \<Rightarrow> (repo \<Rightarrow> binary list \<Rightarrow> string option) \<Rightarrow> world \<Rightarrow> repo \<Rightarrow> world" where
  "poll_repo cf infer w r =
     (if is_updating r then w
      else if needs_update r then
        (let r1 = r\<lparr>is_queued := True\<rparr>;
             w1 = post_queued r1 w
         in if rtype r1 = Some ''rpm'' then
              commit (save r1 (apply_async
                \<lparr>task = create_rpm_repo, args = rid r1,
                 countdown = quiet_time cf, queue = ''build_repos''\<rparr> w1))
            else if rtype r1 = Some ''deb'' then
              commit (save r1 (apply_async
                \<lparr>task = create_deb_repo, args = rid r1,
                 countdown = quiet_time cf, queue = ''build_repos''\<rparr> w1))
            else
              (case infer r1 (binaries_of (session w1) r1) of
                 None \<Rightarrow> commit (save r1 w1)
               | Some t \<Rightarrow> commit (save (r1\<lparr>rtype := Some t\<rparr>) w1)))
      else w)"

text \<open>\<^verbatim>\<open>Repo.query.filter_by(needs_update=True, is_queued=False).all()\<close>\<close>

definition poll_query :: "repo list \<Rightarrow> repo list" where
  "poll_query rows = filter (\<lambda>r. needs_update r \<and> \<not> is_queued r) rows"

definition poll_repos ::
  "conf \<Rightarrow> (repo \<Rightarrow> binary list \<Rightarrow> string option) \<Rightarrow> world \<Rightarrow> world" where
  "poll_repos cf infer w =
     (let w0 = begin_session w
      in foldl (poll_repo cf infer) w0 (poll_query (repos (session w0))))"

section \<open>purge_repos\<close>

text \<open>
  The inner loop body: \<^verbatim>\<open>os.remove(b.path)\<close> inside \<^verbatim>\<open>try\<close>; the handler of
  \<^verbatim>\<open>OSError\<close> consists of \<^verbatim>\<open>if err.errno == errno.ENOENT: pass\<close> alone, so it ends
  normally whatever the \<^verbatim>\<open>errno\<close>; then \<^verbatim>\<open>b.delete()\<close> and \<^verbatim>\<open>models.flush()\<close>, after
  which the session no longer shows the row.
\<close>

definition remove_file :: "world \<Rightarrow> binary \<Rightarrow> world" where
  "remove_file w b =
     (case os_remove (fs w) (bpath b) of
        Inr f \<Rightarrow> w\<lparr>fs := f\<rparr>
      | Inl err \<Rightarrow> (if err = ENOENT then w else w))"

definition delete_binary :: "binary \<Rightarrow> world \<Rightarrow> world" where
  "delete_binary b w =
     w\<lparr>session := (session w)
        \<lparr>binaries := filter (\<lambda>y. bid y \<noteq> bid b) (binaries (session w))\<rparr>\<rparr>"

definition purge_binary :: "world \<Rightarrow> binary \<Rightarrow> world" where
  "purge_binary w b = delete_binary b (remove_file w b)"

definition delete_repo :: "repo \<Rightarrow> world \<Rightarrow> world" where
  "delete_repo r w =
     w\<lparr>session := (session w)
        \<lparr>repos := filter (\<lambda>x. rid x \<noteq> rid r) (repos (session w))\<rparr>\<rparr>"

text \<open>
  The outer loop body. \<^verbatim>\<open>if r.path:\<close> is false for NULL and for the empty string. In the
  handler around \<^verbatim>\<open>shutil.rmtree\<close> the \<^verbatim>\<open>raise\<close> stands after the \<^verbatim>\<open>if\<close>, not under an
  \<^verbatim>\<open>else\<close>: every \<^verbatim>\<open>OSError\<close> leaves the task, with the state as it is at that moment.
\<close>

definition purge_repo :: "world \<Rightarrow> repo \<Rightarrow> (errno \<times> world) + world" where
  "purge_repo w r =
     (let w1 = foldl purge_binary w (binaries_of (session w) r)
      in case (case path r of
                 None \<Rightarrow> Inr (fs w1)
               | Some p \<Rightarrow> if p = [] then Inr (fs w1) else shutil_rmtree (fs w1) p) of
           Inl err \<Rightarrow> (if err = ENOENT then Inl (err, w1) else Inl (err, w1))
         | Inr f \<Rightarrow> Inr (commit (delete_repo r (post_deleted r (w1\<lparr>fs := f\<rparr>)))))"

fun purge_loop :: "world \<Rightarrow> repo list \<Rightarrow> (errno \<times> world) + world" where
  "purge_loop w [] = Inr w"
| "purge_loop w (r # rs) =
     (case purge_repo w r of
        Inl e \<Rightarrow> Inl e
      | Inr w' \<Rightarrow> purge_loop w' rs)"

text \<open>\<^verbatim>\<open>datetime.timedelta(weeks=2)\<close>, in microseconds.\<close>

definition two_weeks :: int where
  "two_weeks = 14 * 24 * 3600 * 1000000"

text \<open>\<^verbatim>\<open>Repo.query.filter(Repo.modified < lifespan).all()\<close>\<close>

definition purge_query :: "int \<Rightarrow> repo list \<Rightarrow> repo list" where
  "purge_query lifespan rows = filter (\<lambda>r. modified r < lifespan) rows"

text \<open>
  \<open>now_arg\<close> is the argument \<^verbatim>\<open>_now\<close> (a datetime is never falsy, so
  \<^verbatim>\<open>_now or utcnow()\<close> takes it whenever it is given); \<open>utcnow\<close> is the clock's reading.
  \<^verbatim>\<open>getattr(pecan.conf, 'purge_repos', False) is False\<close> holds for an unset option and
  for one set to \<^verbatim>\<open>False\<close>.
\<close>

definition purge_repos :: "conf \<Rightarrow> int option \<Rightarrow> int \<Rightarrow> world \<Rightarrow> (errno \<times> world) + world" where
  "purge_repos cf now_arg utcnow w =
     (if (case conf_purge_repos cf of None \<Rightarrow> False | Some v \<Rightarrow> v) = False then Inr w
      else
        (let now = (case now_arg of Some t \<Rightarrow> t | None \<Rightarrow> utcnow);
             lifespan = now - two_weeks;
             w0 = begin_session w
         in purge_loop w0 (purge_query lifespan (repos (session w0)))))"

section \<open>callback\<close>

text \<open>
  \<open>data\<close> is a dictionary or an already encoded string. \<^verbatim>\<open>json.dumps\<close> answers the
  encoding or raises: \<^verbatim>\<open>TypeError\<close> for a value it cannot encode, \<^verbatim>\<open>ValueError\<close> for
  a circular reference, or something else. \<^verbatim>\<open>requests.post\<close> answers a response or
  raises; what it raises is an \<^verbatim>\<open>Exception\<close> other than \<^verbatim>\<open>requests.HTTPError\<close>, which
  only \<^verbatim>\<open>response.raise_for_status()\<close> raises, for a status from 400 to 599. Of a
  response the status code matters, and the text of the \<^verbatim>\<open>HTTPError\<close> made from it,
  which the task logs.
\<close>

datatype 'd payload = Dict 'd | Encoded string

record request =
  req_url :: string
  req_data :: string
  req_auth :: "string \<times> string"
  req_verify :: bool
  req_headers :: "(string \<times> string) list"

record response =
  status_code :: nat
  error_text :: string

datatype dumps_error = TypeError | ValueError | OtherDumpsError

datatype send_error = ConnectionError | Timeout | SSLError | OtherException

record 'd services =
  json_dumps :: "'d \<Rightarrow> dumps_error + string"
  requests_post :: "request \<Rightarrow> send_error + response"

datatype log = Debug string | Warning string | Exception string

text \<open>
  How the task ends: \<^verbatim>\<open>return\<close> (or the end of the body), \<^verbatim>\<open>return False\<close>,
  \<^verbatim>\<open>raise self.retry(exc=exc)\<close>, or an exception of \<^verbatim>\<open>json.dumps\<close> that no handler of
  the task catches.
\<close>

datatype outcome = Returned_None | Returned_False | Retry | Raised dumps_error

record result =
  outcome :: outcome
  posted :: "request list"
  logged :: "log list"

text \<open>\<^verbatim>\<open>os.path.join(a, b)\<close> of \<^verbatim>\<open>posixpath\<close>.\<close>

definition os_path_join :: "string \<Rightarrow> string \<Rightarrow> string" where
  "os_path_join a b =
     (if prefix ''/'' b then b
      else if a = [] \<or> suffix ''/'' a then a @ b
      else a @ ''/'' @ b)"

text \<open>
  \<^verbatim>\<open>response.raise_for_status()\<close>: the text of the \<^verbatim>\<open>HTTPError\<close> it raises, or \<open>None\<close>
  when it returns.
\<close>

definition raise_for_status :: "response \<Rightarrow> string option" where
  "raise_for_status resp =
     (if 400 \<le> status_code resp \<and> status_code resp < 600 then Some (error_text resp)
      else None)"

text \<open>
  The address the task posts to: the argument \<^verbatim>\<open>url\<close> when it is given, else
  \<^verbatim>\<open>os.path.join(pecan.conf.callback_url, project_name, '')\<close>, and none when
  \<^verbatim>\<open>callback_url\<close> is unset or falsy (the task returns at once).
\<close>

definition target_url :: "conf \<Rightarrow> string \<Rightarrow> string option \<Rightarrow> string option" where
  "target_url cf project_name url =
     (case url of
        Some u \<Rightarrow> Some u
      | None \<Rightarrow>
          (case callback_url cf of
             None \<Rightarrow> None
           | Some c \<Rightarrow>
               if c = [] then None
               else Some (os_path_join (os_path_join c project_name) [])))"

text \<open>
  \<^verbatim>\<open>if isinstance(data, dict): data = json.dumps(data)\<close>, with what it raises.
\<close>

definition serialize :: "'d services \<Rightarrow> 'd payload \<Rightarrow> dumps_error + string" where
  "serialize sv data = (case data of Dict d \<Rightarrow> json_dumps sv d | Encoded s \<Rightarrow> Inr s)"

text \<open>
  The handler around \<^verbatim>\<open>json.dumps\<close> is \<^verbatim>\<open>except TypeError\<close>: any other exception leaves
  the task from there, with nothing logged about it. The handlers around the POST are
  \<^verbatim>\<open>except requests.HTTPError\<close>, which logs and retries, and \<^verbatim>\<open>except Exception\<close>,
  which logs and lets the body end.
\<close>

definition callback ::
  "conf \<Rightarrow> 'd services \<Rightarrow> 'd payload \<Rightarrow> string \<Rightarrow> string option \<Rightarrow> result" where
  "callback cf sv data project_name url =
     (case target_url cf project_name url of
        None \<Rightarrow> \<lparr>outcome = Returned_None, posted = [], logged = []\<rparr>
      | Some u \<Rightarrow>
          (let dbg = Debug (''callback for url: '' @ u)
           in case (callback_user cf, callback_key cf) of
                (Some user, Some key) \<Rightarrow>
                  (let verify_ssl = (case callback_verify_ssl cf of None \<Rightarrow> True | Some v \<Rightarrow> v)
                   in case serialize sv data of
                        Inl err \<Rightarrow>
                          if err = TypeError then
                            \<lparr>outcome = Returned_False, posted = [],
                             logged = [dbg, Exception ''could not serialize data'']\<rparr>
                          else
                            \<lparr>outcome = Raised err, posted = [], logged = [dbg]\<rparr>
                      | Inr body \<Rightarrow>
                          (let req = \<lparr>req_url = u, req_data = body, req_auth = (user, key),
                                      req_verify = verify_ssl,
                                      req_headers = [(''Content-type'', ''application/json'')]\<rparr>
                           in case requests_post sv req of
                                Inl e \<Rightarrow>
                                  \<lparr>outcome = Returned_None, posted = [req],
                                   logged = [dbg, Exception ''fatal error trying to POST callback'']\<rparr>
                              | Inr resp \<Rightarrow>
                                  (case raise_for_status resp of
                                     Some exc \<Rightarrow>
                                       \<lparr>outcome = Retry, posted = [req],
                                        logged = [dbg, Warning (''callback failed: '' @ exc)]\<rparr>
                                   | None \<Rightarrow>
                                       \<lparr>outcome = Returned_None, posted = [req],
                                        logged = [dbg]\<rparr>)))
              | _ \<Rightarrow>
                  \<lparr>outcome = Returned_False, posted = [],
                   logged = [dbg, Exception ''callback authentication information missing'']\<rparr>))"

section \<open>Observations used in the statements\<close>

text \<open>The row with a given primary key, as \<^verbatim>\<open>Repo.get(id)\<close> reads it.\<close>

definition repo_get :: "nat \<Rightarrow> database \<Rightarrow> repo option" where
  "repo_get i db = find (\<lambda>x. rid x = i) (repos db)"

text \<open>
  A run of \<open>purge_repos\<close> ends normally or with an \<^verbatim>\<open>OSError\<close> leaving the task:
  the \<^verbatim>\<open>errno\<close> it carries, if any, and the state at that moment.
\<close>

definition raised :: "(errno \<times> world) + world \<Rightarrow> errno option" where
  "raised res = (case res of Inl (e, w) \<Rightarrow> Some e | Inr w \<Rightarrow> None)"

definition final_state :: "(errno \<times> world) + world \<Rightarrow> world" where
  "final_state res = (case res of Inl (e, w) \<Rightarrow> w | Inr w \<Rightarrow> w)"

text \<open>The jobs submitted and the notifications emitted between two states of a run.\<close>

definition submitted :: "world \<Rightarrow> world \<Rightarrow> job list" where
  "submitted w w' = drop (length (build_repos w)) (build_repos w')"

definition emitted :: "world \<Rightarrow> world \<Rightarrow> notification list" where
  "emitted w w' = drop (length (notifications w)) (notifications w')"

text \<open>
  What one poll cycle does to a single row, which jobs it submits for it and which
  notifications it emits for it: the closed form of the loop, proved equal to it below.
\<close>

definition poll_row :: "(repo \<Rightarrow> binary list \<Rightarrow> string option) \<Rightarrow> database \<Rightarrow> repo \<Rightarrow> repo" where
  "poll_row infer db r =
     (if needs_update r \<and> \<not> is_queued r \<and> \<not> is_updating r then
        (if rtype r = Some ''rpm'' \<or> rtype r = Some ''deb'' then r\<lparr>is_queued := True\<rparr>
         else case infer (r\<lparr>is_queued := True\<rparr>) (binaries_of db r) of
                None \<Rightarrow> r\<lparr>is_queued := True\<rparr>
              | Some t \<Rightarrow> r\<lparr>is_queued := True, rtype := Some t\<rparr>)
      else r)"

definition poll_jobs :: "conf \<Rightarrow> repo \<Rightarrow> job list" where
  "poll_jobs cf r =
     (if needs_update r \<and> \<not> is_queued r \<and> \<not> is_updating r then
        (if rtype r = Some ''rpm'' then
           [\<lparr>task = create_rpm_repo, args = rid r, countdown = quiet_time cf, queue = ''build_repos''\<rparr>]
         else if rtype r = Some ''deb'' then
           [\<lparr>task = create_deb_repo, args = rid r, countdown = quiet_time cf, queue = ''build_repos''\<rparr>]
         else [])
      else [])"

definition poll_notes :: "repo \<Rightarrow> notification list" where
  "poll_notes r =
     (if needs_update r \<and> \<not> is_queued r \<and> \<not> is_updating r then [Queued (rid r)] else [])"

section \<open>Type inference and example states\<close>

text \<open>
  Modelled from the spec: \<^verbatim>\<open>Repo.infer_type\<close> (the class \<^verbatim>\<open>Repo\<close> of \<^verbatim>\<open>chacra.models\<close> is not
  among the sources). The spec says that the type is inferred from the extensions of the
  existing Binaries and that \<^verbatim>\<open>binaries=["x.deb"]\<close> infers \<^verbatim>\<open>deb\<close>; here the first Binary
  with a known extension decides. The theorems about \<open>poll_repos\<close> hold for every
  inference function; this one only serves the concrete examples.
\<close>

definition extension_type :: "string \<Rightarrow> string option" where
  "extension_type p =
     (if suffix ''.rpm'' p then Some ''rpm''
      else if suffix ''.deb'' p then Some ''deb''
      else None)"

definition infer_type :: "repo \<Rightarrow> binary list \<Rightarrow> string option" where
  "infer_type r bs =
     (case List.map_filter (\<lambda>b. extension_type (bpath b)) bs of
        [] \<Rightarrow> None
      | t # _ \<Rightarrow> Some t)"

definition example_conf :: conf where
  "example_conf =
     \<lparr>quiet_time = 5, conf_purge_repos = Some True,
      callback_url = Some ''http://ci.example.com/callbacks'',
      callback_user = Some ''admin'', callback_key = Some ''secret'',
      callback_verify_ssl = None\<rparr>"

definition repo_inferable :: repo where
  "repo_inferable =
     \<lparr>rid = 1, rtype = None, needs_update = True, is_queued = False, is_updating = False,
      path = None, modified = 0\<rparr>"

definition repo_rpm :: repo where
  "repo_rpm =
     \<lparr>rid = 2, rtype = Some ''rpm'', needs_update = True, is_queued = False,
      is_updating = False, path = None, modified = 0\<rparr>"

definition repo_unknown :: repo where
  "repo_unknown =
     \<lparr>rid = 3, rtype = None, needs_update = True, is_queued = False, is_updating = False,
      path = None, modified = 0\<rparr>"

definition repo_updating :: repo where
  "repo_updating =
     \<lparr>rid = 4, rtype = Some ''deb'', needs_update = True, is_queued = False,
      is_updating = True, path = None, modified = 0\<rparr>"

definition poll_db :: database where
  "poll_db =
     \<lparr>repos = [repo_inferable, repo_rpm, repo_unknown, repo_updating],
      binaries = [\<lparr>bid = 10, repo_id = 1, bpath = ''x.deb''\<rparr>]\<rparr>"

definition poll_world :: world where
  "poll_world =
     \<lparr>stored = poll_db, session = poll_db, fs = (\<lambda>_. Missing),
      build_repos = [], notifications = []\<rparr>"

text \<open>
  States for \<open>purge_repos\<close>: a Repo last modified at time 0 with two Binaries, and a Repo
  last modified exactly two weeks before \<open>purge_now\<close> with one Binary; the filesystem is a
  parameter of the state.
\<close>

definition purge_now :: int where
  "purge_now = 2000000000000"

definition repo_stale :: repo where
  "repo_stale =
     \<lparr>rid = 1, rtype = Some ''deb'', needs_update = False, is_queued = False,
      is_updating = False, path = Some ''/repos/stale'', modified = 0\<rparr>"

definition repo_fresh :: repo where
  "repo_fresh =
     \<lparr>rid = 2, rtype = Some ''rpm'', needs_update = False, is_queued = False,
      is_updating = False, path = Some ''/repos/fresh'', modified = 790400000000\<rparr>"

definition purge_db :: database where
  "purge_db =
     \<lparr>repos = [repo_stale, repo_fresh],
      binaries = [\<lparr>bid = 10, repo_id = 1, bpath = ''/binaries/a.deb''\<rparr>,
                  \<lparr>bid = 11, repo_id = 1, bpath = ''/binaries/b.deb''\<rparr>,
                  \<lparr>bid = 12, repo_id = 2, bpath = ''/binaries/c.rpm''\<rparr>]\<rparr>"

definition purge_world :: "filesystem \<Rightarrow> world" where
  "purge_world f =
     \<lparr>stored = purge_db, session = purge_db, fs = f, build_repos = [], notifications = []\<rparr>"

text \<open>
  Every path of the example is present, except \<^verbatim>\<open>/binaries/b.deb\<close>, which is missing.
\<close>

definition purge_fs :: filesystem where
  "purge_fs =
     (\<lambda>_. Missing)
       (''/repos/stale'' := Present, ''/repos/stale/Packages'' := Present,
        ''/repos/fresh'' := Present, ''/binaries/a.deb'' := Present,
        ''/binaries/c.rpm'' := Present)"

definition purge_run :: "filesystem \<Rightarrow> (errno \<times> world) + world" where
  "purge_run f = purge_repos example_conf (Some purge_now) 0 (purge_world f)"

text \<open>
  Services for \<open>callback\<close>. A dictionary of the example is one with an encoding, one
  with a datetime value (\<^verbatim>\<open>json.dumps\<close> raises \<^verbatim>\<open>TypeError\<close>) or one that holds itself
  (\<^verbatim>\<open>json.dumps\<close> raises \<^verbatim>\<open>ValueError\<close>). One host answers 500, one refuses the
  connection, every other answers 200.
\<close>

datatype example_dict = Plain string | With_datetime | Circular

definition example_services :: "example_dict services" where
  "example_services =
     \<lparr>json_dumps = (\<lambda>d. case d of
        Plain s \<Rightarrow> Inr s
      | With_datetime \<Rightarrow> Inl TypeError
      | Circular \<Rightarrow> Inl ValueError),
      requests_post = (\<lambda>req.
        if req_url req = ''http://failing.example.com/'' then
          Inr \<lparr>status_code = 500, error_text = ''500 Server Error: Internal Server Error''\<rparr>
        else if req_url req = ''http://down.example.com/'' then Inl ConnectionError
        else Inr \<lparr>status_code = 200, error_text = []\<rparr>)\<rparr>"

section \<open>The poll cycle in closed form\<close>

lemmas example_defs = poll_world_def poll_db_def repo_inferable_def repo_rpm_def
  repo_unknown_def repo_updating_def example_conf_def

lemmas poll_defs = poll_repos_def poll_query_def begin_session_def poll_repo_def
  post_queued_def apply_async_def save_def commit_def binaries_of_def infer_type_def
  extension_type_def suffix_to_prefix Let_def repo_get_def submitted_def emitted_def

lemma rid_poll_row [simp]: "rid (poll_row infer db r) = rid r"
  by (simp add: poll_row_def split: option.splits)

lemma poll_row_binaries:
  "binaries db = binaries db' \<Longrightarrow> poll_row infer db r = poll_row infer db' r"
  by (simp add: poll_row_def binaries_of_def)

lemma map_same_id:
  assumes "distinct (map rid rows)" "r \<in> set rows"
  shows "map (\<lambda>x. if rid x = rid r then r else x) rows = rows"
proof -
  have "\<forall>x\<in>set rows. (if rid x = rid r then r else x) = x"
    using assms by (auto simp: distinct_map dest: inj_onD)
  then show ?thesis by (simp add: map_idI)
qed

lemma poll_repo_step:
  assumes "distinct (map rid (repos (session w)))" "r \<in> set (repos (session w))"
    "stored w = session w" "needs_update r" "\<not> is_queued r"
  shows "repos (session (poll_repo cf infer w r)) =
           map (\<lambda>x. if rid x = rid r then poll_row infer (session w) r else x)
             (repos (session w))"
    and "binaries (session (poll_repo cf infer w r)) = binaries (session w)"
    and "stored (poll_repo cf infer w r) = session (poll_repo cf infer w r)"
    and "build_repos (poll_repo cf infer w r) = build_repos w @ poll_jobs cf r"
    and "notifications (poll_repo cf infer w r) = notifications w @ poll_notes r"
    and "fs (poll_repo cf infer w r) = fs w"
proof -
  show "repos (session (poll_repo cf infer w r)) =
           map (\<lambda>x. if rid x = rid r then poll_row infer (session w) r else x)
             (repos (session w))"
  proof (cases "is_updating r")
    case True
    then have "poll_row infer (session w) r = r" "poll_repo cf infer w r = w"
      by (simp_all add: poll_row_def poll_repo_def)
    then show ?thesis using map_same_id [OF assms(1,2)] by metis
  next
    case False
    then show ?thesis using assms(4,5)
      by (simp add: poll_repo_def poll_row_def Let_def save_def commit_def post_queued_def
          apply_async_def binaries_of_def split: option.splits)
  qed
  show "binaries (session (poll_repo cf infer w r)) = binaries (session w)"
    by (simp add: poll_repo_def Let_def save_def commit_def post_queued_def
        apply_async_def split: option.splits)
  show "stored (poll_repo cf infer w r) = session (poll_repo cf infer w r)"
    using assms(3)
    by (simp add: poll_repo_def Let_def save_def commit_def post_queued_def
        apply_async_def split: option.splits)
  show "build_repos (poll_repo cf infer w r) = build_repos w @ poll_jobs cf r"
    using assms(4,5)
    by (simp add: poll_repo_def poll_jobs_def Let_def save_def commit_def post_queued_def
        apply_async_def split: option.splits)
  show "notifications (poll_repo cf infer w r) = notifications w @ poll_notes r"
    using assms(4,5)
    by (simp add: poll_repo_def poll_notes_def Let_def save_def commit_def post_queued_def
        apply_async_def split: option.splits)
  show "fs (poll_repo cf infer w r) = fs w"
    by (simp add: poll_repo_def Let_def save_def commit_def post_queued_def
        apply_async_def split: option.splits)
qed

lemma poll_loop:
  assumes "distinct (map rid (repos (session w)))" "set xs \<subseteq> set (repos (session w))"
    "distinct (map rid xs)" "stored w = session w"
    "\<forall>x\<in>set xs. needs_update x \<and> \<not> is_queued x"
  shows "repos (session (foldl (poll_repo cf infer) w xs)) =
           map (\<lambda>x. if rid x \<in> rid ` set xs then poll_row infer (session w) x else x)
             (repos (session w)) \<and>
         binaries (session (foldl (poll_repo cf infer) w xs)) = binaries (session w) \<and>
         stored (foldl (poll_repo cf infer) w xs) = session (foldl (poll_repo cf infer) w xs) \<and>
         build_repos (foldl (poll_repo cf infer) w xs) =
           build_repos w @ concat (map (poll_jobs cf) xs) \<and>
         notifications (foldl (poll_repo cf infer) w xs) =
           notifications w @ concat (map poll_notes xs) \<and>
         fs (foldl (poll_repo cf infer) w xs) = fs w"
  using assms
proof (induction xs arbitrary: w)
  case Nil
  then show ?case by simp
next
  case (Cons x xs)
  let ?w = "poll_repo cf infer w x"
  have xin: "x \<in> set (repos (session w))" and xsel: "needs_update x" "\<not> is_queued x"
    using Cons.prems by auto
  note st = poll_repo_step [OF Cons.prems(1) xin Cons.prems(4) xsel, of cf infer]
  have ids: "map rid (repos (session ?w)) = map rid (repos (session w))"
    by (simp add: st(1) o_def if_distrib [of rid] cong: if_cong)
  have d: "distinct (map rid (repos (session ?w)))"
    using Cons.prems(1) ids by simp
  have notx: "\<forall>y\<in>set xs. rid y \<noteq> rid x"
    using Cons.prems(3) by (auto simp: image_iff)
  have uniq: "\<forall>y\<in>set (repos (session w)). rid y = rid x \<longrightarrow> y = x"
    using Cons.prems(1) xin by (auto simp: distinct_map dest: inj_onD)
  have sub: "set xs \<subseteq> set (repos (session ?w))"
  proof
    fix y assume y: "y \<in> set xs"
    then have "y \<in> set (repos (session w))" "rid y \<noteq> rid x"
      using Cons.prems(2) notx by auto
    then show "y \<in> set (repos (session ?w))"
      by (auto simp: st(1) image_iff intro!: bexI [of _ y])
  qed
  have row: "poll_row infer (session ?w) = poll_row infer (session w)"
    using poll_row_binaries [OF st(2), of infer] by (simp add: fun_eq_iff)
  have IH: "repos (session (foldl (poll_repo cf infer) ?w xs)) =
           map (\<lambda>x. if rid x \<in> rid ` set xs then poll_row infer (session w) x else x)
             (repos (session ?w)) \<and>
         binaries (session (foldl (poll_repo cf infer) ?w xs)) = binaries (session ?w) \<and>
         stored (foldl (poll_repo cf infer) ?w xs) = session (foldl (poll_repo cf infer) ?w xs) \<and>
         build_repos (foldl (poll_repo cf infer) ?w xs) =
           build_repos ?w @ concat (map (poll_jobs cf) xs) \<and>
         notifications (foldl (poll_repo cf infer) ?w xs) =
           notifications ?w @ concat (map poll_notes xs) \<and>
         fs (foldl (poll_repo cf infer) ?w xs) = fs ?w"
    using Cons.IH [OF d sub] Cons.prems(3,5) st(3) row by simp
  have "map (\<lambda>y. if rid y \<in> rid ` set xs then poll_row infer (session w) y else y)
          (repos (session ?w)) =
        map (\<lambda>y. if rid y \<in> rid ` set (x # xs) then poll_row infer (session w) y else y)
          (repos (session w))"
    using notx uniq by (auto simp: st(1) image_iff)
  with IH show ?case by (simp add: st)
qed

lemma in_filter_ids:
  assumes "distinct (map rid rows)" "y \<in> set rows"
  shows "rid y \<in> rid ` set (filter P rows) \<longleftrightarrow> P y"
  using assms by (auto simp: distinct_map dest: inj_onD)

lemma poll_row_unselected:
  "\<not> (needs_update r \<and> \<not> is_queued r) \<Longrightarrow> poll_row infer db r = r"
  by (auto simp: poll_row_def)

lemma poll_jobs_unselected: "\<not> (needs_update r \<and> \<not> is_queued r) \<Longrightarrow> poll_jobs cf r = []"
  by (auto simp: poll_jobs_def)

lemma poll_notes_unselected: "\<not> (needs_update r \<and> \<not> is_queued r) \<Longrightarrow> poll_notes r = []"
  by (auto simp: poll_notes_def)

lemma concat_map_filter_nil:
  "(\<And>x. \<not> P x \<Longrightarrow> f x = []) \<Longrightarrow> concat (map f (filter P xs)) = concat (map f xs)"
  by (induction xs) auto

lemma poll_repos_closed:
  assumes "distinct (map rid (repos (stored w)))"
  shows "repos (stored (poll_repos cf infer w)) =
           map (poll_row infer (stored w)) (repos (stored w))"
    and "binaries (stored (poll_repos cf infer w)) = binaries (stored w)"
    and "session (poll_repos cf infer w) = stored (poll_repos cf infer w)"
    and "build_repos (poll_repos cf infer w) =
           build_repos w @ concat (map (poll_jobs cf) (repos (stored w)))"
    and "notifications (poll_repos cf infer w) =
           notifications w @ concat (map poll_notes (repos (stored w)))"
    and "fs (poll_repos cf infer w) = fs w"
proof -
  let ?w0 = "begin_session w"
  let ?xs = "poll_query (repos (session ?w0))"
  let ?w' = "foldl (poll_repo cf infer) ?w0 ?xs"
  have s0: "session ?w0 = stored w" "stored ?w0 = stored w" "build_repos ?w0 = build_repos w"
    "notifications ?w0 = notifications w" "fs ?w0 = fs w"
    by (simp_all add: begin_session_def)
  have L: "repos (session ?w') =
           map (\<lambda>x. if rid x \<in> rid ` set ?xs then poll_row infer (session ?w0) x else x)
             (repos (session ?w0)) \<and>
         binaries (session ?w') = binaries (session ?w0) \<and>
         stored ?w' = session ?w' \<and>
         build_repos ?w' = build_repos ?w0 @ concat (map (poll_jobs cf) ?xs) \<and>
         notifications ?w' = notifications ?w0 @ concat (map poll_notes ?xs) \<and>
         fs ?w' = fs ?w0"
    by (rule poll_loop) (use assms in \<open>auto simp: s0 poll_query_def distinct_map_filter\<close>)
  have M: "map (\<lambda>x. if rid x \<in> rid ` set ?xs then poll_row infer (stored w) x else x)
             (repos (stored w)) =
           map (poll_row infer (stored w)) (repos (stored w))"
    using assms
    by (auto simp: s0 poll_query_def in_filter_ids [OF assms] poll_row_unselected
        simp del: set_filter)
  have P: "poll_repos cf infer w = ?w'"
    by (simp add: poll_repos_def Let_def)
  show S: "session (poll_repos cf infer w) = stored (poll_repos cf infer w)"
    using L P by simp
  have "repos (session ?w') =
          map (\<lambda>x. if rid x \<in> rid ` set ?xs then poll_row infer (stored w) x else x)
            (repos (stored w))"
    using L by (simp only: s0)
  then have "repos (session ?w') = map (poll_row infer (stored w)) (repos (stored w))"
    using M by (simp only: s0)
  then show "repos (stored (poll_repos cf infer w)) =
          map (poll_row infer (stored w)) (repos (stored w))"
    using S P by simp
  show "binaries (stored (poll_repos cf infer w)) = binaries (stored w)"
    using L P by (simp add: s0)
  show "build_repos (poll_repos cf infer w) =
           build_repos w @ concat (map (poll_jobs cf) (repos (stored w)))"
    using L P by (simp add: s0 poll_query_def concat_map_filter_nil poll_jobs_unselected)
  show "notifications (poll_repos cf infer w) =
           notifications w @ concat (map poll_notes (repos (stored w)))"
    using L P by (simp add: s0 poll_query_def concat_map_filter_nil poll_notes_unselected)
  show "fs (poll_repos cf infer w) = fs w"
    using L P by (simp add: s0)
qed

lemma repo_get_map:
  assumes "distinct (map rid (repos db))" "r \<in> set (repos db)" "\<And>x. rid (f x) = rid x"
    "repos db' = map f (repos db)"
  shows "repo_get (rid r) db' = Some (f r)"
proof -
  have "find (\<lambda>x. rid x = rid r) (map f rows) = Some (f r)"
    if "distinct (map rid rows)" "r \<in> set rows" for rows
    using that
  proof (induction rows)
    case Nil
    then show ?case by simp
  next
    case (Cons a rows)
    show ?case
    proof (cases "a = r")
      case True
      then show ?thesis by (simp add: assms(3))
    next
      case False
      then have "r \<in> set rows" "rid a \<noteq> rid r"
        using Cons.prems by (auto simp: image_iff)
      then show ?thesis
        using Cons by (simp add: assms(3))
    qed
  qed
  then show ?thesis using assms(1,2,4) by (simp add: repo_get_def)
qed

lemma args_poll_jobs: "j \<in> set (poll_jobs cf x) \<Longrightarrow> args j = rid x"
  by (auto simp: poll_jobs_def split: if_splits)

lemma filter_poll_jobs:
  assumes "distinct (map rid rows)" "r \<in> set rows"
  shows "filter (\<lambda>j. args j = rid r) (concat (map (poll_jobs cf) rows)) = poll_jobs cf r"
  using assms
proof (induction rows)
  case Nil
  then show ?case by simp
next
  case (Cons a rows)
  show ?case
  proof (cases "a = r")
    case True
    then have "\<forall>x\<in>set rows. rid x \<noteq> rid r"
      using Cons.prems by (auto simp: image_iff)
    then have "filter (\<lambda>j. args j = rid r) (concat (map (poll_jobs cf) rows)) = []"
      by (auto simp: filter_empty_conv dest: args_poll_jobs)
    moreover have "filter (\<lambda>j. args j = rid r) (poll_jobs cf r) = poll_jobs cf r"
      by (auto simp: filter_id_conv dest: args_poll_jobs)
    ultimately show ?thesis using True by simp
  next
    case False
    then have "r \<in> set rows" "rid a \<noteq> rid r"
      using Cons.prems by (auto simp: image_iff)
    moreover from this have "filter (\<lambda>j. args j = rid r) (poll_jobs cf a) = []"
      by (auto simp: filter_empty_conv dest: args_poll_jobs)
    ultimately show ?thesis using Cons by simp
  qed
qed

lemma filter_poll_notes:
  assumes "distinct (map rid rows)" "r \<in> set rows"
  shows "filter (\<lambda>n. n = Queued (rid r)) (concat (map poll_notes rows)) = poll_notes r"
  using assms
proof (induction rows)
  case Nil
  then show ?case by simp
next
  case (Cons a rows)
  show ?case
  proof (cases "a = r")
    case True
    then have "\<forall>x\<in>set rows. rid x \<noteq> rid r"
      using Cons.prems by (auto simp: image_iff)
    then have "filter (\<lambda>n. n = Queued (rid r)) (concat (map poll_notes rows)) = []"
      by (auto simp: filter_empty_conv poll_notes_def split: if_splits)
    moreover have "filter (\<lambda>n. n = Queued (rid r)) (poll_notes r) = poll_notes r"
      by (auto simp: poll_notes_def)
    ultimately show ?thesis using True by simp
  next
    case False
    then have "r \<in> set rows" "rid a \<noteq> rid r"
      using Cons.prems by (auto simp: image_iff)
    moreover from this have "filter (\<lambda>n. n = Queued (rid r)) (poll_notes a) = []"
      by (auto simp: poll_notes_def)
    ultimately show ?thesis using Cons by simp
  qed
qed

lemma poll_repos_row:
  assumes "distinct (map rid (repos (stored w)))" "r \<in> set (repos (stored w))"
  shows "repo_get (rid r) (stored (poll_repos cf infer w)) = Some (poll_row infer (stored w) r)"
  by (rule repo_get_map [OF assms _ poll_repos_closed(1) [OF assms(1)]]) simp

lemma poll_repos_jobs:
  assumes "distinct (map rid (repos (stored w)))" "r \<in> set (repos (stored w))"
  shows "filter (\<lambda>j. args j = rid r) (submitted w (poll_repos cf infer w)) = poll_jobs cf r"
  using filter_poll_jobs [OF assms] poll_repos_closed(4) [OF assms(1)]
  by (simp add: submitted_def)

lemma poll_repos_notes:
  assumes "distinct (map rid (repos (stored w)))" "r \<in> set (repos (stored w))"
  shows "filter (\<lambda>n. n = Queued (rid r)) (emitted w (poll_repos cf infer w)) = poll_notes r"
  using filter_poll_notes [OF assms] poll_repos_closed(5) [OF assms(1)]
  by (simp add: emitted_def)

lemma poll_repos_keeps_queued:
  assumes "distinct (map rid (repos (stored w)))" "x \<in> set (repos (stored w))" "is_queued x"
  shows "distinct (map rid (repos (stored (poll_repos cf infer w))))"
    and "x \<in> set (repos (stored (poll_repos cf infer w)))"
proof -
  have eq: "repos (stored (poll_repos cf infer w)) =
      map (poll_row infer (stored w)) (repos (stored w))"
    by (rule poll_repos_closed(1) [OF assms(1)])
  show "distinct (map rid (repos (stored (poll_repos cf infer w))))"
    using assms(1) by (simp add: eq o_def)
  have "poll_row infer (stored w) x = x"
    using assms(3) by (simp add: poll_row_unselected)
  then show "x \<in> set (repos (stored (poll_repos cf infer w)))"
    using assms(2) by (force simp: eq)
qed

lemma poll_cycles_keep_queued:
  assumes "distinct (map rid (repos (stored w)))" "x \<in> set (repos (stored w))" "is_queued x"
  shows "distinct (map rid (repos (stored ((poll_repos cf infer ^^ n) w)))) \<and>
         x \<in> set (repos (stored ((poll_repos cf infer ^^ n) w)))"
proof (induction n)
  case 0
  then show ?case using assms by simp
next
  case (Suc n)
  then show ?case
    using poll_repos_keeps_queued [of "(poll_repos cf infer ^^ n) w" x cf infer] assms(3)
    by simp
qed

lemma queued_not_selected:
  assumes "distinct (map rid rows)" "x \<in> set rows" "is_queued x"
  shows "rid x \<notin> rid ` set (poll_query rows)"
proof
  assume "rid x \<in> rid ` set (poll_query rows)"
  then obtain y where y: "y \<in> set rows" "needs_update y" "\<not> is_queued y" "rid y = rid x"
    by (auto simp: poll_query_def)
  then have "y = x"
    using assms(1,2) by (auto simp: distinct_map dest: inj_onD)
  with y assms(3) show False by simp
qed

section \<open>Claims about poll_repos\<close>

text \<open>
  C1. A Repo with \<^verbatim>\<open>needs_update=true\<close>, \<^verbatim>\<open>is_queued=false\<close>, \<^verbatim>\<open>is_updating=false\<close> and type
  \<^verbatim>\<open>rpm\<close> or \<^verbatim>\<open>deb\<close>: after one run of \<open>poll_repos\<close> its stored row is the old row with
  \<^verbatim>\<open>is_queued\<close> set, and among the jobs submitted by the run exactly one is for this Repo:
  the build task of its type, on the queue \<^verbatim>\<open>build_repos\<close>, with countdown
  \<^verbatim>\<open>quiet_time\<close>. Primary keys are unique.
\<close>

theorem poll_repos_dispatches_known_type:
  assumes "distinct (map rid (repos (stored w)))" and "r \<in> set (repos (stored w))"
    and "needs_update r" and "\<not> is_queued r" and "\<not> is_updating r"
    and "rtype r = Some ''rpm'' \<or> rtype r = Some ''deb''"
  shows "repo_get (rid r) (stored (poll_repos cf infer w)) = Some (r\<lparr>is_queued := True\<rparr>) \<and>
         filter (\<lambda>j. args j = rid r) (submitted w (poll_repos cf infer w)) =
           [\<lparr>task = (if rtype r = Some ''rpm'' then create_rpm_repo else create_deb_repo),
             args = rid r, countdown = quiet_time cf, queue = ''build_repos''\<rparr>]"
proof -
  have "poll_row infer (stored w) r = r\<lparr>is_queued := True\<rparr>"
    using assms(3-6) by (auto simp: poll_row_def)
  moreover have "poll_jobs cf r =
      [\<lparr>task = (if rtype r = Some ''rpm'' then create_rpm_repo else create_deb_repo),
        args = rid r, countdown = quiet_time cf, queue = ''build_repos''\<rparr>]"
    using assms(3-6) by (auto simp: poll_jobs_def)
  ultimately show ?thesis
    using poll_repos_row [OF assms(1,2), of cf infer] poll_repos_jobs [OF assms(1,2), of cf infer]
    by simp
qed

theorem poll_repos_dispatches_known_type_witness:
  "distinct (map rid (repos (stored poll_world))) \<and> repo_rpm \<in> set (repos (stored poll_world)) \<and>
   needs_update repo_rpm \<and> \<not> is_queued repo_rpm \<and> \<not> is_updating repo_rpm \<and>
   rtype repo_rpm = Some ''rpm'' \<and>
   repo_get 2 (stored (poll_repos example_conf infer_type poll_world)) =
     Some (repo_rpm\<lparr>is_queued := True\<rparr>) \<and>
   filter (\<lambda>j. args j = 2) (submitted poll_world (poll_repos example_conf infer_type poll_world)) =
     [\<lparr>task = create_rpm_repo, args = 2, countdown = 5, queue = ''build_repos''\<rparr>]"
  using poll_repos_dispatches_known_type [of poll_world repo_rpm example_conf infer_type]
  by (simp add: example_defs)

text \<open>
  C8. A Repo with \<^verbatim>\<open>is_updating=true\<close>, whatever its other flags and its type: after one
  run of \<open>poll_repos\<close> its stored row is the old row, and no job submitted by the run is
  for this Repo.
\<close>

theorem poll_repos_skips_updating:
  assumes "distinct (map rid (repos (stored w)))" and "r \<in> set (repos (stored w))"
    and "is_updating r"
  shows "repo_get (rid r) (stored (poll_repos cf infer w)) = Some r \<and>
         filter (\<lambda>j. args j = rid r) (submitted w (poll_repos cf infer w)) = []"
proof -
  have "poll_row infer (stored w) r = r" "poll_jobs cf r = []"
    using assms(3) by (simp_all add: poll_row_def poll_jobs_def)
  then show ?thesis
    using poll_repos_row [OF assms(1,2), of cf infer] poll_repos_jobs [OF assms(1,2), of cf infer]
    by simp
qed

theorem poll_repos_skips_updating_witness:
  "distinct (map rid (repos (stored poll_world))) \<and>
   repo_updating \<in> set (repos (stored poll_world)) \<and>
   is_updating repo_updating \<and> needs_update repo_updating \<and> \<not> is_queued repo_updating \<and>
   rtype repo_updating = Some ''deb'' \<and>
   repo_get 4 (stored (poll_repos example_conf infer_type poll_world)) = Some repo_updating \<and>
   filter (\<lambda>j. args j = 4) (submitted poll_world (poll_repos example_conf infer_type poll_world)) = []"
  using poll_repos_skips_updating [of poll_world repo_updating example_conf infer_type]
  by (simp add: example_defs)

text \<open>
  C3 as stated fails. The Repo with id 3 of the example state has \<^verbatim>\<open>needs_update=true\<close>,
  \<^verbatim>\<open>is_queued=false\<close>, \<^verbatim>\<open>is_updating=false\<close>, no type and no Binary to infer one from;
  after one run of \<open>poll_repos\<close> its stored row has \<^verbatim>\<open>is_queued=true\<close> and so differs from
  the row before the run.
\<close>

theorem poll_repos_uninferable_not_unchanged:
  "repo_unknown \<in> set (repos (stored poll_world)) \<and>
   needs_update repo_unknown \<and> \<not> is_queued repo_unknown \<and> \<not> is_updating repo_unknown \<and>
   rtype repo_unknown = None \<and>
   infer_type repo_unknown (binaries_of (stored poll_world) repo_unknown) = None \<and>
   repo_get (rid repo_unknown) (stored (poll_repos example_conf infer_type poll_world)) =
     Some (repo_unknown\<lparr>is_queued := True\<rparr>) \<and>
   repo_get (rid repo_unknown) (stored (poll_repos example_conf infer_type poll_world)) \<noteq>
     Some repo_unknown"
  by (simp add: example_defs poll_defs)

text \<open>
  C3, amended. A Repo with \<^verbatim>\<open>needs_update=true\<close>, \<^verbatim>\<open>is_queued=false\<close>, \<^verbatim>\<open>is_updating=false\<close>
  whose type is neither \<^verbatim>\<open>rpm\<close> nor \<^verbatim>\<open>deb\<close> and cannot be inferred: after one run of
  \<open>poll_repos\<close> its stored row is the old row with \<^verbatim>\<open>is_queued\<close> set and every other field
  as before, and no job submitted by the run is for this Repo.
\<close>

theorem poll_repos_uninferable_only_queued:
  assumes "distinct (map rid (repos (stored w)))" and "r \<in> set (repos (stored w))"
    and "needs_update r" and "\<not> is_queued r" and "\<not> is_updating r"
    and "rtype r \<noteq> Some ''rpm''" and "rtype r \<noteq> Some ''deb''"
    and "infer (r\<lparr>is_queued := True\<rparr>) (binaries_of (stored w) r) = None"
  shows "repo_get (rid r) (stored (poll_repos cf infer w)) = Some (r\<lparr>is_queued := True\<rparr>) \<and>
         filter (\<lambda>j. args j = rid r) (submitted w (poll_repos cf infer w)) = []"
proof -
  have "poll_row infer (stored w) r = r\<lparr>is_queued := True\<rparr>" "poll_jobs cf r = []"
    using assms(3-8) by (simp_all add: poll_row_def poll_jobs_def)
  then show ?thesis
    using poll_repos_row [OF assms(1,2), of cf infer] poll_repos_jobs [OF assms(1,2), of cf infer]
    by simp
qed

theorem poll_repos_uninferable_only_queued_witness:
  "distinct (map rid (repos (stored poll_world))) \<and>
   repo_unknown \<in> set (repos (stored poll_world)) \<and>
   needs_update repo_unknown \<and> \<not> is_queued repo_unknown \<and> \<not> is_updating repo_unknown \<and>
   rtype repo_unknown \<noteq> Some ''rpm'' \<and> rtype repo_unknown \<noteq> Some ''deb'' \<and>
   infer_type (repo_unknown\<lparr>is_queued := True\<rparr>)
     (binaries_of (stored poll_world) repo_unknown) = None \<and>
   repo_get 3 (stored (poll_repos example_conf infer_type poll_world)) =
     Some (repo_unknown\<lparr>is_queued := True\<rparr>) \<and>
   filter (\<lambda>j. args j = 3) (submitted poll_world (poll_repos example_conf infer_type poll_world)) = []"
  using poll_repos_uninferable_only_queued [of poll_world repo_unknown infer_type example_conf]
  by (simp add: example_defs infer_type_def binaries_of_def)

text \<open>
  C4 as stated fails in its last part. The Repo with id 1 of the example state has no type
  and one Binary \<^verbatim>\<open>x.deb\<close>; the first run of \<open>poll_repos\<close> stores the type \<^verbatim>\<open>deb\<close> together
  with \<^verbatim>\<open>is_queued=true\<close>, and after a second run against the resulting state the build
  queue holds the job of the Repo with id 2 alone, none for this Repo.
\<close>

theorem poll_repos_inferred_not_dispatched_next:
  "repo_inferable \<in> set (repos (stored poll_world)) \<and>
   needs_update repo_inferable \<and> \<not> is_queued repo_inferable \<and> \<not> is_updating repo_inferable \<and>
   rtype repo_inferable = None \<and>
   infer_type repo_inferable (binaries_of (stored poll_world) repo_inferable) = Some ''deb'' \<and>
   repo_get 1 (stored (poll_repos example_conf infer_type poll_world)) =
     Some (repo_inferable\<lparr>is_queued := True, rtype := Some ''deb''\<rparr>) \<and>
   build_repos (poll_repos example_conf infer_type
     (poll_repos example_conf infer_type poll_world)) =
     [\<lparr>task = create_rpm_repo, args = 2, countdown = 5, queue = ''build_repos''\<rparr>]"
  by (simp add: example_defs poll_defs)

text \<open>
  C4, amended. A Repo with \<^verbatim>\<open>needs_update=true\<close>, \<^verbatim>\<open>is_queued=false\<close>, \<^verbatim>\<open>is_updating=false\<close>
  whose type is neither \<^verbatim>\<open>rpm\<close> nor \<^verbatim>\<open>deb\<close> and is inferred as \<open>t\<close>: after one run of
  \<open>poll_repos\<close> its stored row carries the type \<open>t\<close> (and \<^verbatim>\<open>is_queued=true\<close>), and no job
  submitted by the run is for this Repo.
\<close>

theorem poll_repos_persists_inferred_type:
  assumes "distinct (map rid (repos (stored w)))" and "r \<in> set (repos (stored w))"
    and "needs_update r" and "\<not> is_queued r" and "\<not> is_updating r"
    and "rtype r \<noteq> Some ''rpm''" and "rtype r \<noteq> Some ''deb''"
    and "infer (r\<lparr>is_queued := True\<rparr>) (binaries_of (stored w) r) = Some t"
  shows "repo_get (rid r) (stored (poll_repos cf infer w)) =
           Some (r\<lparr>is_queued := True, rtype := Some t\<rparr>) \<and>
         filter (\<lambda>j. args j = rid r) (submitted w (poll_repos cf infer w)) = []"
proof -
  have "poll_row infer (stored w) r = r\<lparr>is_queued := True, rtype := Some t\<rparr>"
    "poll_jobs cf r = []"
    using assms(3-8) by (simp_all add: poll_row_def poll_jobs_def)
  then show ?thesis
    using poll_repos_row [OF assms(1,2), of cf infer] poll_repos_jobs [OF assms(1,2), of cf infer]
    by simp
qed

theorem poll_repos_persists_inferred_type_witness:
  "distinct (map rid (repos (stored poll_world))) \<and>
   repo_inferable \<in> set (repos (stored poll_world)) \<and>
   needs_update repo_inferable \<and> \<not> is_queued repo_inferable \<and> \<not> is_updating repo_inferable \<and>
   rtype repo_inferable \<noteq> Some ''rpm'' \<and> rtype repo_inferable \<noteq> Some ''deb'' \<and>
   infer_type (repo_inferable\<lparr>is_queued := True\<rparr>)
     (binaries_of (stored poll_world) repo_inferable) = Some ''deb'' \<and>
   repo_get 1 (stored (poll_repos example_conf infer_type poll_world)) =
     Some (repo_inferable\<lparr>is_queued := True, rtype := Some ''deb''\<rparr>) \<and>
   filter (\<lambda>j. args j = 1) (submitted poll_world (poll_repos example_conf infer_type poll_world)) = []"
  using poll_repos_persists_inferred_type
    [of poll_world repo_inferable infer_type "''deb''" example_conf]
  by (simp add: example_defs infer_type_def extension_type_def suffix_to_prefix
      binaries_of_def)

text \<open>
  C10. A Repo with \<^verbatim>\<open>needs_update=true\<close>, \<^verbatim>\<open>is_queued=false\<close>, \<^verbatim>\<open>is_updating=false\<close>, of any
  type and with any answer of the type inference: after one run of \<open>poll_repos\<close> its stored
  row has \<^verbatim>\<open>is_queued=true\<close>, the session holds nothing uncommitted, exactly one
  \<^verbatim>\<open>queued\<close> notification was emitted for it, and the query of no later poll cycle
  returns a row with its id.
\<close>

theorem poll_repos_queues_before_type_check:
  assumes "distinct (map rid (repos (stored w)))" and "r \<in> set (repos (stored w))"
    and "needs_update r" and "\<not> is_queued r" and "\<not> is_updating r"
  shows "(\<exists>r'. repo_get (rid r) (stored (poll_repos cf infer w)) = Some r' \<and> is_queued r') \<and>
         session (poll_repos cf infer w) = stored (poll_repos cf infer w) \<and>
         filter (\<lambda>n. n = Queued (rid r)) (emitted w (poll_repos cf infer w)) = [Queued (rid r)] \<and>
         (\<forall>n. rid r \<notin> rid ` set (poll_query
                  (repos (stored ((poll_repos cf infer ^^ n) (poll_repos cf infer w))))))"
proof -
  let ?w = "poll_repos cf infer w"
  let ?r = "poll_row infer (stored w) r"
  have q: "is_queued ?r"
    using assms(3-5) by (simp add: poll_row_def split: option.splits)
  have row: "repo_get (rid r) (stored ?w) = Some ?r"
    by (rule poll_repos_row [OF assms(1,2)])
  have eq: "repos (stored ?w) = map (poll_row infer (stored w)) (repos (stored w))"
    by (rule poll_repos_closed(1) [OF assms(1)])
  have d: "distinct (map rid (repos (stored ?w)))"
    using assms(1) by (simp add: eq o_def)
  have m: "?r \<in> set (repos (stored ?w))"
    using assms(2) by (simp add: eq)
  have nts: "filter (\<lambda>n. n = Queued (rid r)) (emitted w ?w) = [Queued (rid r)]"
    using poll_repos_notes [OF assms(1,2), of cf infer] assms(3-5) by (simp add: poll_notes_def)
  have later: "rid r \<notin> rid ` set (poll_query (repos (stored ((poll_repos cf infer ^^ n) ?w))))"
    for n
    using queued_not_selected [of "repos (stored ((poll_repos cf infer ^^ n) ?w))" ?r]
      poll_cycles_keep_queued [OF d m q, where cf=cf and infer=infer and n=n] q
    by simp
  show ?thesis
    using q row nts later poll_repos_closed(3) [OF assms(1), of cf infer] by simp
qed

theorem poll_repos_queues_before_type_check_witness:
  "distinct (map rid (repos (stored poll_world))) \<and>
   repo_unknown \<in> set (repos (stored poll_world)) \<and>
   needs_update repo_unknown \<and> \<not> is_queued repo_unknown \<and> \<not> is_updating repo_unknown \<and>
   rtype repo_unknown = None \<and>
   infer_type (repo_unknown\<lparr>is_queued := True\<rparr>)
     (binaries_of (stored poll_world) repo_unknown) = None \<and>
   (\<exists>r'. repo_get 3 (stored (poll_repos example_conf infer_type poll_world)) = Some r' \<and>
         is_queued r') \<and>
   session (poll_repos example_conf infer_type poll_world) =
     stored (poll_repos example_conf infer_type poll_world) \<and>
   filter (\<lambda>n. n = Queued 3)
     (emitted poll_world (poll_repos example_conf infer_type poll_world)) = [Queued 3] \<and>
   (\<forall>n. 3 \<notin> rid ` set (poll_query (repos (stored ((poll_repos example_conf infer_type ^^ n)
             (poll_repos example_conf infer_type poll_world))))))"
  using poll_repos_queues_before_type_check [of poll_world repo_unknown example_conf infer_type]
  by (simp add: example_defs infer_type_def binaries_of_def)

section \<open>The purge cycle, however it ends\<close>

lemmas purge_example_defs = purge_world_def purge_db_def repo_stale_def repo_fresh_def
  purge_fs_def purge_now_def example_conf_def

lemmas purge_defs = purge_repos_def purge_query_def purge_repo_def purge_binary_def
  remove_file_def delete_binary_def delete_repo_def post_deleted_def commit_def
  begin_session_def binaries_of_def os_remove_def shutil_rmtree_def under_def two_weeks_def
  Let_def repo_get_def emitted_def


lemma purge_binaries_fold:
  "repos (session (foldl purge_binary w bs)) = repos (session w) \<and>
   binaries (session (foldl purge_binary w bs)) =
     filter (\<lambda>y. bid y \<notin> bid ` set bs) (binaries (session w)) \<and>
   stored (foldl purge_binary w bs) = stored w \<and>
   build_repos (foldl purge_binary w bs) = build_repos w \<and>
   notifications (foldl purge_binary w bs) = notifications w \<and>
   (\<forall>p. fs w p = Missing \<longrightarrow> fs (foldl purge_binary w bs) p = Missing)"
proof (induction bs arbitrary: w)
  case Nil
  then show ?case by simp
next
  case (Cons b bs)
  let ?w = "purge_binary w b"
  have st: "repos (session ?w) = repos (session w)"
    "binaries (session ?w) = filter (\<lambda>y. bid y \<noteq> bid b) (binaries (session w))"
    "stored ?w = stored w" "build_repos ?w = build_repos w"
    "notifications ?w = notifications w"
    by (simp_all add: purge_binary_def delete_binary_def remove_file_def split: sum.splits)
  have f: "\<forall>p. fs w p = Missing \<longrightarrow> fs ?w p = Missing"
    by (auto simp: purge_binary_def delete_binary_def remove_file_def os_remove_def
        split: sum.splits fsobj.splits)
  have "filter (\<lambda>y. bid y \<notin> bid ` set bs) (filter (\<lambda>y. bid y \<noteq> bid b) (binaries (session w))) =
        filter (\<lambda>y. bid y \<notin> bid ` set (b # bs)) (binaries (session w))"
    by (auto intro: filter_cong)
  then show ?case
    using Cons.IH [of ?w] st f by simp
qed


lemma purge_repo_success:
  assumes "purge_repo w r = Inr w'"
  shows "repos (session w') = filter (\<lambda>x. rid x \<noteq> rid r) (repos (session w))"
    and "binaries (session w') =
           filter (\<lambda>y. bid y \<notin> bid ` set (binaries_of (session w) r)) (binaries (session w))"
    and "stored w' = session w'"
    and "build_repos w' = build_repos w"
    and "notifications w' = notifications w @ [Deleted (rid r)]"
    and "fs w p = Missing \<Longrightarrow> fs w' p = Missing"
    and "path r = Some q \<Longrightarrow> q \<noteq> [] \<Longrightarrow> fs w' q = Missing"
proof -
  let ?w1 = "foldl purge_binary w (binaries_of (session w) r)"
  note b = purge_binaries_fold [of w "binaries_of (session w) r"]
  obtain f where f: "(case path r of
                 None \<Rightarrow> Inr (fs ?w1)
               | Some p \<Rightarrow> if p = [] then Inr (fs ?w1) else shutil_rmtree (fs ?w1) p) = Inr f"
    and w': "w' = commit (delete_repo r (post_deleted r (?w1\<lparr>fs := f\<rparr>)))"
    using assms by (auto simp: purge_repo_def Let_def split: sum.splits if_splits)
  show "repos (session w') = filter (\<lambda>x. rid x \<noteq> rid r) (repos (session w))"
    using b by (simp add: w' commit_def delete_repo_def post_deleted_def)
  show "binaries (session w') =
           filter (\<lambda>y. bid y \<notin> bid ` set (binaries_of (session w) r)) (binaries (session w))"
    using b by (simp add: w' commit_def delete_repo_def post_deleted_def)
  show "stored w' = session w'"
    by (simp add: w' commit_def)
  show "build_repos w' = build_repos w"
    using b by (simp add: w' commit_def delete_repo_def post_deleted_def)
  show "notifications w' = notifications w @ [Deleted (rid r)]"
    using b by (simp add: w' commit_def delete_repo_def post_deleted_def)
  have fw: "fs w' = f"
    by (simp add: w' commit_def delete_repo_def post_deleted_def)
  have mono: "fs ?w1 p = Missing \<Longrightarrow> f p = Missing" for p
    using f by (auto simp: shutil_rmtree_def split: option.splits if_splits fsobj.splits)
  show "fs w p = Missing \<Longrightarrow> fs w' p = Missing"
    using b mono by (simp add: fw)
  show "path r = Some q \<Longrightarrow> q \<noteq> [] \<Longrightarrow> fs w' q = Missing"
    using f by (auto simp: fw shutil_rmtree_def split: fsobj.splits)
qed

lemma owned_binaries_by_id:
  assumes "distinct (map bid bs)" "y \<in> set bs"
  shows "bid y \<notin> bid ` set (filter (\<lambda>b. repo_id b = i) bs) \<longleftrightarrow> repo_id y \<noteq> i"
  using assms by (auto simp: distinct_map dest: inj_onD)

lemma purge_repo_binaries:
  assumes "purge_repo w r = Inr w'" "distinct (map bid (binaries (session w)))"
  shows "binaries (session w') = filter (\<lambda>y. repo_id y \<noteq> rid r) (binaries (session w))"
proof -
  have "filter (\<lambda>y. bid y \<notin> bid ` set (binaries_of (session w) r)) (binaries (session w)) =
        filter (\<lambda>y. repo_id y \<noteq> rid r) (binaries (session w))"
    unfolding binaries_of_def
    by (rule filter_cong [OF refl]) (rule owned_binaries_by_id [OF assms(2)])
  then show ?thesis
    using purge_repo_success(2) [OF assms(1)] by simp
qed

lemma find_by_id:
  assumes "distinct (map rid rows)" "r \<in> set rows"
  shows "find (\<lambda>x. rid x = rid r) rows = Some r"
  using assms
proof (induction rows)
  case Nil
  then show ?case by simp
next
  case (Cons a rows)
  then show ?case by (cases "a = r") (auto simp: image_iff)
qed

lemma filter_deleted_notes:
  assumes "distinct (map rid xs)"
  shows "filter (\<lambda>n. n = Deleted i) (map (\<lambda>r. Deleted (rid r)) xs) =
           (if i \<in> rid ` set xs then [Deleted i] else [])"
  using assms by (induction xs) (auto simp: image_iff)

lemma purge_repo_error:
  assumes "purge_repo w r = Inl (e, w1)"
  shows "stored w1 = stored w" and "build_repos w1 = build_repos w"
    and "notifications w1 = notifications w"
    and "fs w p = Missing \<Longrightarrow> fs w1 p = Missing"
proof -
  have w1: "w1 = foldl purge_binary w (binaries_of (session w) r)"
    using assms by (auto simp: purge_repo_def Let_def split: sum.splits if_splits)
  note b = purge_binaries_fold [of w "binaries_of (session w) r"]
  show "stored w1 = stored w" "build_repos w1 = build_repos w"
    "notifications w1 = notifications w"
    using b by (simp_all add: w1)
  show "fs w p = Missing \<Longrightarrow> fs w1 p = Missing"
    using b by (simp add: w1)
qed

lemma purge_loop_any:
  assumes "distinct (map bid (binaries (session w)))" "stored w = session w"
  shows "\<exists>done. prefix done rs \<and>
           (raised (purge_loop w rs) = None \<longrightarrow> done = rs) \<and>
           repos (stored (final_state (purge_loop w rs))) =
             filter (\<lambda>x. rid x \<notin> rid ` set done) (repos (stored w)) \<and>
           binaries (stored (final_state (purge_loop w rs))) =
             filter (\<lambda>y. repo_id y \<notin> rid ` set done) (binaries (stored w)) \<and>
           build_repos (final_state (purge_loop w rs)) = build_repos w \<and>
           notifications (final_state (purge_loop w rs)) =
             notifications w @ map (\<lambda>r. Deleted (rid r)) done \<and>
           (\<forall>p. fs w p = Missing \<longrightarrow> fs (final_state (purge_loop w rs)) p = Missing) \<and>
           (\<forall>r\<in>set done. \<forall>q. path r = Some q \<and> q \<noteq> [] \<longrightarrow>
              fs (final_state (purge_loop w rs)) q = Missing)"
  using assms
proof (induction rs arbitrary: w)
  case Nil
  show ?case
    by (rule exI [of _ "[]"]) (simp add: final_state_def raised_def)
next
  case (Cons r rs)
  show ?case
  proof (cases "purge_repo w r")
    case (Inl a)
    obtain e w1 where a: "a = (e, w1)" by (cases a)
    note er = purge_repo_error [OF Inl [unfolded a]]
    have res: "purge_loop w (r # rs) = Inl (e, w1)"
      using Inl a by simp
    show ?thesis
      unfolding res
      by (rule exI [of _ "[]"]) (simp add: final_state_def raised_def er)
  next
    case (Inr w1)
    note s = purge_repo_success [OF Inr] purge_repo_binaries [OF Inr Cons.prems(1)]
    have d: "distinct (map bid (binaries (session w1)))"
      using Cons.prems(1) by (simp add: s(8) distinct_map_filter)
    have res: "purge_loop w (r # rs) = purge_loop w1 rs"
      using Inr by simp
    from Cons.IH [OF d s(3)] obtain dn where dn0:
      "prefix dn rs \<and>
       (raised (purge_loop w1 rs) = None \<longrightarrow> dn = rs) \<and>
       repos (stored (final_state (purge_loop w1 rs))) =
         filter (\<lambda>x. rid x \<notin> rid ` set dn) (repos (stored w1)) \<and>
       binaries (stored (final_state (purge_loop w1 rs))) =
         filter (\<lambda>y. repo_id y \<notin> rid ` set dn) (binaries (stored w1)) \<and>
       build_repos (final_state (purge_loop w1 rs)) = build_repos w1 \<and>
       notifications (final_state (purge_loop w1 rs)) =
         notifications w1 @ map (\<lambda>r. Deleted (rid r)) dn \<and>
       (\<forall>p. fs w1 p = Missing \<longrightarrow> fs (final_state (purge_loop w1 rs)) p = Missing) \<and>
       (\<forall>r\<in>set dn. \<forall>q. path r = Some q \<and> q \<noteq> [] \<longrightarrow>
              fs (final_state (purge_loop w1 rs)) q = Missing)"
      by (rule exE)
    have dn: "prefix dn rs"
      "raised (purge_loop w1 rs) = None \<longrightarrow> dn = rs"
      "repos (stored (final_state (purge_loop w1 rs))) =
         filter (\<lambda>x. rid x \<notin> rid ` set dn) (repos (stored w1))"
      "binaries (stored (final_state (purge_loop w1 rs))) =
         filter (\<lambda>y. repo_id y \<notin> rid ` set dn) (binaries (stored w1))"
      "build_repos (final_state (purge_loop w1 rs)) = build_repos w1"
      "notifications (final_state (purge_loop w1 rs)) =
         notifications w1 @ map (\<lambda>r. Deleted (rid r)) dn"
      "\<forall>p. fs w1 p = Missing \<longrightarrow> fs (final_state (purge_loop w1 rs)) p = Missing"
      "\<forall>r\<in>set dn. \<forall>q. path r = Some q \<and> q \<noteq> [] \<longrightarrow>
              fs (final_state (purge_loop w1 rs)) q = Missing"
      using dn0 by simp_all
    have r1: "filter (\<lambda>x. rid x \<notin> rid ` set dn)
                (filter (\<lambda>x. rid x \<noteq> rid r) (repos (session w))) =
              filter (\<lambda>x. rid x \<notin> rid ` set (r # dn)) (repos (session w))"
      by (auto intro: filter_cong)
    have r2: "filter (\<lambda>y. repo_id y \<notin> rid ` set dn)
                (filter (\<lambda>y. repo_id y \<noteq> rid r) (binaries (session w))) =
              filter (\<lambda>y. repo_id y \<notin> rid ` set (r # dn)) (binaries (session w))"
      by (auto intro: filter_cong)
    have f1: "\<forall>p. fs w p = Missing \<longrightarrow> fs (final_state (purge_loop w1 rs)) p = Missing"
      using dn(7) s(6) by blast
    have f2: "\<forall>x\<in>set (r # dn). \<forall>q. path x = Some q \<and> q \<noteq> [] \<longrightarrow>
        fs (final_state (purge_loop w1 rs)) q = Missing"
      using dn(7,8) s(7) by auto
    have rows: "repos (stored (final_state (purge_loop w1 rs))) =
        filter (\<lambda>x. rid x \<notin> rid ` set (r # dn)) (repos (stored w))"
      using dn(3) r1 by (simp only: s(3) s(1) Cons.prems(2))
    have bins: "binaries (stored (final_state (purge_loop w1 rs))) =
        filter (\<lambda>y. repo_id y \<notin> rid ` set (r # dn)) (binaries (stored w))"
      using dn(4) r2 by (simp only: s(3) s(8) Cons.prems(2))
    have nts: "notifications (final_state (purge_loop w1 rs)) =
        notifications w @ map (\<lambda>r. Deleted (rid r)) (r # dn)"
      using dn(6) by (simp add: s(5))
    show ?thesis
      apply (rule exI [of _ "r # dn"])
      unfolding res
      using dn(1,2) rows bins nts f1 f2 dn(5) s(4)
      apply (intro conjI)
             apply simp_all
      done
  qed
qed

lemma purge_repos_any:
  assumes "conf_purge_repos cf = Some True"
    and "distinct (map bid (binaries (stored w)))"
    and "lifespan = (case now_arg of Some t \<Rightarrow> t | None \<Rightarrow> utcnow) - two_weeks"
    and "w' = final_state (purge_repos cf now_arg utcnow w)"
  shows "\<exists>done. prefix done (purge_query lifespan (repos (stored w))) \<and>
           (raised (purge_repos cf now_arg utcnow w) = None \<longrightarrow>
              done = purge_query lifespan (repos (stored w))) \<and>
           repos (stored w') = filter (\<lambda>x. rid x \<notin> rid ` set done) (repos (stored w)) \<and>
           binaries (stored w') =
             filter (\<lambda>y. repo_id y \<notin> rid ` set done) (binaries (stored w)) \<and>
           build_repos w' = build_repos w \<and>
           notifications w' = notifications w @ map (\<lambda>r. Deleted (rid r)) done \<and>
           (\<forall>r\<in>set done. \<forall>q. path r = Some q \<and> q \<noteq> [] \<longrightarrow> fs w' q = Missing)"
proof -
  let ?w0 = "begin_session w"
  let ?xs = "purge_query lifespan (repos (stored w))"
  have s0: "session ?w0 = stored w" "stored ?w0 = stored w" "build_repos ?w0 = build_repos w"
    "notifications ?w0 = notifications w" "fs ?w0 = fs w"
    by (simp_all add: begin_session_def)
  have run: "purge_repos cf now_arg utcnow w = purge_loop ?w0 ?xs"
    using assms(1,3) by (simp add: purge_repos_def Let_def s0)
  have "distinct (map bid (binaries (session ?w0)))" "stored ?w0 = session ?w0"
    using assms(2) by (simp_all add: s0)
  from purge_loop_any [OF this, of ?xs] obtain dn where dn:
    "prefix dn ?xs \<and>
     (raised (purge_loop ?w0 ?xs) = None \<longrightarrow> dn = ?xs) \<and>
     repos (stored (final_state (purge_loop ?w0 ?xs))) =
       filter (\<lambda>x. rid x \<notin> rid ` set dn) (repos (stored ?w0)) \<and>
     binaries (stored (final_state (purge_loop ?w0 ?xs))) =
       filter (\<lambda>y. repo_id y \<notin> rid ` set dn) (binaries (stored ?w0)) \<and>
     build_repos (final_state (purge_loop ?w0 ?xs)) = build_repos ?w0 \<and>
     notifications (final_state (purge_loop ?w0 ?xs)) =
       notifications ?w0 @ map (\<lambda>r. Deleted (rid r)) dn \<and>
     (\<forall>p. fs ?w0 p = Missing \<longrightarrow> fs (final_state (purge_loop ?w0 ?xs)) p = Missing) \<and>
     (\<forall>r\<in>set dn. \<forall>q. path r = Some q \<and> q \<noteq> [] \<longrightarrow>
        fs (final_state (purge_loop ?w0 ?xs)) q = Missing)"
    by (rule exE)
  show ?thesis
    by (rule exI [of _ dn]) (use dn in \<open>simp add: run assms(4) s0\<close>)
qed

lemma prefix_ids:
  assumes "prefix dn xs" "distinct (map rid xs)"
  shows "distinct (map rid dn)" and "set dn \<subseteq> set xs"
proof -
  from assms(1) obtain zs where "xs = dn @ zs"
    by (auto simp: prefix_def)
  then show "distinct (map rid dn)" "set dn \<subseteq> set xs"
    using assms(2) by simp_all
qed

section \<open>Claims about purge_repos\<close>

lemmas purge_eval = purge_run_def purge_example_defs purge_defs raised_def final_state_def

text \<open>
  C2 as stated fails: a selected Repo is not always gone after the run. In the example the
  storage directory of the stale Repo cannot be removed (\<^verbatim>\<open>EACCES\<close>); the error leaves the
  task, the row of the Repo is still stored and no notification was emitted.
\<close>

theorem purge_repos_undeletable_directory_keeps_row:
  "conf_purge_repos example_conf = Some True \<and>
   modified repo_stale < purge_now - two_weeks \<and>
   repo_stale \<in> set (repos (stored (purge_world (purge_fs(''/repos/stale'' := Faulty EACCES))))) \<and>
   raised (purge_run (purge_fs(''/repos/stale'' := Faulty EACCES))) = Some EACCES \<and>
   repo_get 1 (stored (final_state (purge_run (purge_fs(''/repos/stale'' := Faulty EACCES))))) =
     Some repo_stale \<and>
   notifications (final_state (purge_run (purge_fs(''/repos/stale'' := Faulty EACCES)))) = []"
  by (simp add: purge_eval)

text \<open>
  C2, amended. With the feature flag enabled and unique primary keys, one run of
  \<open>purge_repos\<close>, however it ends: a Repo with \<open>modified \<ge> now - 14 days\<close> is not
  selected; its stored row and its stored Binary rows are as before and no notification
  was emitted for it. A Repo with \<open>modified < now - 14 days\<close> is selected; afterwards
  either its row is gone, no Binary row points to it, its storage directory (when it has
  one) is missing and exactly one \<^verbatim>\<open>deleted\<close> notification was emitted for it, or a
  filesystem error ended the run and its stored row and stored Binary rows are as before
  and no notification was emitted for it. When the run ends normally (no filesystem error
  leaves the task) the first holds for every selected Repo, and the stored Repo rows are
  exactly the rows with \<open>modified \<ge> now - 14 days\<close>.
\<close>

theorem purge_repos_removes_stale:
  assumes "conf_purge_repos cf = Some True"
    and "distinct (map rid (repos (stored w)))"
    and "distinct (map bid (binaries (stored w)))"
    and "lifespan = (case now_arg of Some t \<Rightarrow> t | None \<Rightarrow> utcnow) - two_weeks"
    and "w' = final_state (purge_repos cf now_arg utcnow w)"
  shows "(\<forall>r\<in>set (repos (stored w)). lifespan \<le> modified r \<longrightarrow>
            repo_get (rid r) (stored w') = Some r \<and>
            binaries_of (stored w') r = binaries_of (stored w) r \<and>
            filter (\<lambda>n. n = Deleted (rid r)) (emitted w w') = []) \<and>
         (\<forall>r\<in>set (repos (stored w)). modified r < lifespan \<longrightarrow>
            (repo_get (rid r) (stored w') = None \<and>
             binaries_of (stored w') r = [] \<and>
             (\<forall>q. path r = Some q \<and> q \<noteq> [] \<longrightarrow> fs w' q = Missing) \<and>
             filter (\<lambda>n. n = Deleted (rid r)) (emitted w w') = [Deleted (rid r)]) \<or>
            (raised (purge_repos cf now_arg utcnow w) \<noteq> None \<and>
             repo_get (rid r) (stored w') = Some r \<and>
             binaries_of (stored w') r = binaries_of (stored w) r \<and>
             filter (\<lambda>n. n = Deleted (rid r)) (emitted w w') = [])) \<and>
         (raised (purge_repos cf now_arg utcnow w) = None \<longrightarrow>
            repos (stored w') = filter (\<lambda>x. lifespan \<le> modified x) (repos (stored w)))"
proof -
  let ?xs = "purge_query lifespan (repos (stored w))"
  from purge_repos_any [OF assms(1,3,4,5)] obtain dn where dn0:
    "prefix dn ?xs \<and>
     (raised (purge_repos cf now_arg utcnow w) = None \<longrightarrow> dn = ?xs) \<and>
     repos (stored w') = filter (\<lambda>x. rid x \<notin> rid ` set dn) (repos (stored w)) \<and>
     binaries (stored w') =
       filter (\<lambda>y. repo_id y \<notin> rid ` set dn) (binaries (stored w)) \<and>
     build_repos w' = build_repos w \<and>
     notifications w' = notifications w @ map (\<lambda>r. Deleted (rid r)) dn \<and>
     (\<forall>r\<in>set dn. \<forall>q. path r = Some q \<and> q \<noteq> [] \<longrightarrow> fs w' q = Missing)"
    by (rule exE)
  have dn: "prefix dn ?xs"
    "raised (purge_repos cf now_arg utcnow w) = None \<longrightarrow> dn = ?xs"
    "repos (stored w') = filter (\<lambda>x. rid x \<notin> rid ` set dn) (repos (stored w))"
    "binaries (stored w') = filter (\<lambda>y. repo_id y \<notin> rid ` set dn) (binaries (stored w))"
    "notifications w' = notifications w @ map (\<lambda>r. Deleted (rid r)) dn"
    "\<forall>r\<in>set dn. \<forall>q. path r = Some q \<and> q \<noteq> [] \<longrightarrow> fs w' q = Missing"
    using dn0 by simp_all
  have dx: "distinct (map rid ?xs)"
    using assms(2) by (simp add: purge_query_def distinct_map_filter)
  note pd = prefix_ids [OF dn(1) dx]
  have sel: "rid r \<in> rid ` set ?xs \<longleftrightarrow> modified r < lifespan"
    if "r \<in> set (repos (stored w))" for r
    unfolding purge_query_def using in_filter_ids [OF assms(2) that] by simp
  have nts: "filter (\<lambda>n. n = Deleted (rid r)) (emitted w w') =
      (if rid r \<in> rid ` set dn then [Deleted (rid r)] else [])" for r
    by (simp add: emitted_def dn(5) filter_deleted_notes [OF pd(1)])
  have kept: "repo_get (rid r) (stored w') = Some r \<and>
      binaries_of (stored w') r = binaries_of (stored w) r \<and>
      filter (\<lambda>n. n = Deleted (rid r)) (emitted w w') = []"
    if r: "r \<in> set (repos (stored w))" and ids: "rid r \<notin> rid ` set dn" for r
  proof -
    have "distinct (map rid (repos (stored w')))" "r \<in> set (repos (stored w'))"
      using assms(2) r ids by (simp_all add: dn(3) distinct_map_filter)
    then have g: "repo_get (rid r) (stored w') = Some r"
      by (simp add: repo_get_def find_by_id)
    have "filter (\<lambda>b. repo_id b = rid r)
            (filter (\<lambda>y. repo_id y \<notin> rid ` set dn) (binaries (stored w))) =
          filter (\<lambda>b. repo_id b = rid r) (binaries (stored w))"
      unfolding filter_filter using ids by (intro filter_cong [OF refl]) (auto simp: image_iff)
    then have b: "binaries_of (stored w') r = binaries_of (stored w) r"
      by (simp add: binaries_of_def dn(4))
    show ?thesis
      using g b nts [of r] ids by simp
  qed
  have gone: "repo_get (rid r) (stored w') = None \<and> binaries_of (stored w') r = [] \<and>
      (\<forall>q. path r = Some q \<and> q \<noteq> [] \<longrightarrow> fs w' q = Missing) \<and>
      filter (\<lambda>n. n = Deleted (rid r)) (emitted w w') = [Deleted (rid r)]"
    if r: "r \<in> set (repos (stored w))" and ids: "rid r \<in> rid ` set dn" for r
  proof -
    from ids obtain x where x: "x \<in> set dn" "rid x = rid r"
      by (auto simp: image_iff)
    then have "x \<in> set (repos (stored w))"
      using pd(2) by (auto simp: purge_query_def)
    then have "x = r"
      using assms(2) r x(2) by (auto simp: distinct_map dest: inj_onD)
    then have in_dn: "r \<in> set dn"
      using x(1) by simp
    have "\<forall>y\<in>set (repos (stored w')). rid y \<noteq> rid r"
      using ids by (auto simp: dn(3))
    then have g: "repo_get (rid r) (stored w') = None"
      by (simp add: repo_get_def find_None_iff)
    have b: "binaries_of (stored w') r = []"
      using ids by (auto simp: binaries_of_def dn(4) filter_empty_conv)
    have f: "\<forall>q. path r = Some q \<and> q \<noteq> [] \<longrightarrow> fs w' q = Missing"
      using dn(6) in_dn by blast
    show ?thesis
      using g b f nts [of r] ids by simp
  qed
  have fresh: "\<forall>r\<in>set (repos (stored w)). lifespan \<le> modified r \<longrightarrow>
            repo_get (rid r) (stored w') = Some r \<and>
            binaries_of (stored w') r = binaries_of (stored w) r \<and>
            filter (\<lambda>n. n = Deleted (rid r)) (emitted w w') = []"
  proof (intro ballI impI)
    fix r assume r: "r \<in> set (repos (stored w))" and m: "lifespan \<le> modified r"
    have "rid r \<notin> rid ` set ?xs"
      using sel [OF r] m by simp
    then have "rid r \<notin> rid ` set dn"
      using pd(2) by blast
    then show "repo_get (rid r) (stored w') = Some r \<and>
            binaries_of (stored w') r = binaries_of (stored w) r \<and>
            filter (\<lambda>n. n = Deleted (rid r)) (emitted w w') = []"
      by (rule kept [OF r])
  qed
  have stale: "\<forall>r\<in>set (repos (stored w)). modified r < lifespan \<longrightarrow>
            (repo_get (rid r) (stored w') = None \<and>
             binaries_of (stored w') r = [] \<and>
             (\<forall>q. path r = Some q \<and> q \<noteq> [] \<longrightarrow> fs w' q = Missing) \<and>
             filter (\<lambda>n. n = Deleted (rid r)) (emitted w w') = [Deleted (rid r)]) \<or>
            (raised (purge_repos cf now_arg utcnow w) \<noteq> None \<and>
             repo_get (rid r) (stored w') = Some r \<and>
             binaries_of (stored w') r = binaries_of (stored w) r \<and>
             filter (\<lambda>n. n = Deleted (rid r)) (emitted w w') = [])"
  proof (intro ballI impI)
    fix r assume r: "r \<in> set (repos (stored w))" and m: "modified r < lifespan"
    show "(repo_get (rid r) (stored w') = None \<and>
             binaries_of (stored w') r = [] \<and>
             (\<forall>q. path r = Some q \<and> q \<noteq> [] \<longrightarrow> fs w' q = Missing) \<and>
             filter (\<lambda>n. n = Deleted (rid r)) (emitted w w') = [Deleted (rid r)]) \<or>
            (raised (purge_repos cf now_arg utcnow w) \<noteq> None \<and>
             repo_get (rid r) (stored w') = Some r \<and>
             binaries_of (stored w') r = binaries_of (stored w) r \<and>
             filter (\<lambda>n. n = Deleted (rid r)) (emitted w w') = [])"
    proof (cases "rid r \<in> rid ` set dn")
      case True
      then show ?thesis using gone [OF r] by blast
    next
      case False
      have "rid r \<in> rid ` set ?xs"
        using sel [OF r] m by simp
      then have "dn \<noteq> ?xs"
        using False by auto
      then have "raised (purge_repos cf now_arg utcnow w) \<noteq> None"
        using dn(2) by blast
      then show ?thesis using kept [OF r False] by blast
    qed
  qed
  have normal: "raised (purge_repos cf now_arg utcnow w) = None \<longrightarrow>
            repos (stored w') = filter (\<lambda>x. lifespan \<le> modified x) (repos (stored w))"
  proof
    assume "raised (purge_repos cf now_arg utcnow w) = None"
    then have all: "dn = ?xs"
      using dn(2) by blast
    have "filter (\<lambda>x. rid x \<notin> rid ` set ?xs) (repos (stored w)) =
        filter (\<lambda>x. lifespan \<le> modified x) (repos (stored w))"
      by (rule filter_cong [OF refl]) (simp add: sel not_less)
    then show "repos (stored w') = filter (\<lambda>x. lifespan \<le> modified x) (repos (stored w))"
      by (simp add: dn(3) all)
  qed
  show ?thesis
    using fresh stale normal by (intro conjI)
qed

theorem purge_repos_removes_stale_witness:
  "conf_purge_repos example_conf = Some True \<and>
   distinct (map rid (repos (stored (purge_world purge_fs)))) \<and>
   distinct (map bid (binaries (stored (purge_world purge_fs)))) \<and>
   modified repo_stale < purge_now - two_weeks \<and>
   purge_now - two_weeks \<le> modified repo_fresh \<and>
   raised (purge_run purge_fs) = None \<and>
   repos (stored (final_state (purge_run purge_fs))) = [repo_fresh] \<and>
   repo_get 1 (stored (final_state (purge_run purge_fs))) = None \<and>
   binaries_of (stored (final_state (purge_run purge_fs))) repo_stale = [] \<and>
   fs (final_state (purge_run purge_fs)) ''/repos/stale'' = Missing \<and>
   filter (\<lambda>n. n = Deleted 1)
     (emitted (purge_world purge_fs) (final_state (purge_run purge_fs))) = [Deleted 1] \<and>
   repo_get 2 (stored (final_state (purge_run purge_fs))) = Some repo_fresh \<and>
   binaries_of (stored (final_state (purge_run purge_fs))) repo_fresh =
     binaries_of (stored (purge_world purge_fs)) repo_fresh \<and>
   filter (\<lambda>n. n = Deleted 2)
     (emitted (purge_world purge_fs) (final_state (purge_run purge_fs))) = [] \<and>
   raised (purge_run (purge_fs(''/repos/stale'' := Faulty EACCES))) = Some EACCES \<and>
   repo_get 2
     (stored (final_state (purge_run (purge_fs(''/repos/stale'' := Faulty EACCES))))) =
     Some repo_fresh \<and>
   binaries_of
     (stored (final_state (purge_run (purge_fs(''/repos/stale'' := Faulty EACCES)))))
     repo_fresh =
     binaries_of (stored (purge_world (purge_fs(''/repos/stale'' := Faulty EACCES))))
       repo_fresh \<and>
   filter (\<lambda>n. n = Deleted 2)
     (emitted (purge_world (purge_fs(''/repos/stale'' := Faulty EACCES)))
        (final_state (purge_run (purge_fs(''/repos/stale'' := Faulty EACCES))))) = []"
proof -
  have pre: "conf_purge_repos example_conf = Some True"
    "purge_now - two_weeks = (case Some purge_now of Some t \<Rightarrow> t | None \<Rightarrow> 0) - two_weeks"
    by (simp_all add: purge_example_defs)
  have keys: "distinct (map rid (repos (stored (purge_world f))))"
    "distinct (map bid (binaries (stored (purge_world f))))"
    "final_state (purge_run f) =
       final_state (purge_repos example_conf (Some purge_now) 0 (purge_world f))" for f
    by (simp_all add: purge_example_defs purge_run_def)
  note t = purge_repos_removes_stale
    [OF pre(1) keys(1,2) [of purge_fs] pre(2) keys(3) [of purge_fs]]
  note u = purge_repos_removes_stale
    [OF pre(1) keys(1,2) [of "purge_fs(''/repos/stale'' := Faulty EACCES)"] pre(2)
      keys(3) [of "purge_fs(''/repos/stale'' := Faulty EACCES)"]]
  have mem: "repo_stale \<in> set (repos (stored (purge_world f)))"
    "repo_fresh \<in> set (repos (stored (purge_world f)))" for f
    by (simp_all add: purge_example_defs)
  have old: "modified repo_stale < purge_now - two_weeks"
    and new: "purge_now - two_weeks \<le> modified repo_fresh"
    by (simp_all add: purge_example_defs two_weeks_def)
  have vals: "path repo_stale = Some ''/repos/stale''" "rid repo_stale = 1" "rid repo_fresh = 2"
    by (simp_all add: purge_example_defs)
  have rows: "filter (\<lambda>x. purge_now - two_weeks \<le> modified x)
      (repos (stored (purge_world purge_fs))) = [repo_fresh]"
    by (simp add: purge_example_defs two_weeks_def)
  have ok: "raised (purge_run purge_fs) = None"
    by (simp add: purge_eval)
  have ok': "raised (purge_repos example_conf (Some purge_now) 0 (purge_world purge_fs)) = None"
    using ok by (simp only: purge_run_def)
  have bad: "raised (purge_run (purge_fs(''/repos/stale'' := Faulty EACCES))) = Some EACCES"
    by (simp add: purge_eval)
  have kept: "repos (stored (final_state (purge_run purge_fs))) = [repo_fresh]"
    using t [THEN conjunct2, THEN conjunct2] ok' rows by simp
  have stale: "repo_get (rid repo_stale) (stored (final_state (purge_run purge_fs))) = None \<and>
      binaries_of (stored (final_state (purge_run purge_fs))) repo_stale = [] \<and>
      (\<forall>q. path repo_stale = Some q \<and> q \<noteq> [] \<longrightarrow>
           fs (final_state (purge_run purge_fs)) q = Missing) \<and>
      filter (\<lambda>n. n = Deleted (rid repo_stale))
        (emitted (purge_world purge_fs) (final_state (purge_run purge_fs))) =
        [Deleted (rid repo_stale)]"
    using bspec [OF t [THEN conjunct2, THEN conjunct1] mem(1)] old ok' by blast
  have fresh: "repo_get (rid repo_fresh) (stored (final_state (purge_run purge_fs))) =
        Some repo_fresh \<and>
      binaries_of (stored (final_state (purge_run purge_fs))) repo_fresh =
        binaries_of (stored (purge_world purge_fs)) repo_fresh \<and>
      filter (\<lambda>n. n = Deleted (rid repo_fresh))
        (emitted (purge_world purge_fs) (final_state (purge_run purge_fs))) = []"
    using bspec [OF t [THEN conjunct1] mem(2)] new by blast
  have fresh': "repo_get (rid repo_fresh)
        (stored (final_state (purge_run (purge_fs(''/repos/stale'' := Faulty EACCES))))) =
        Some repo_fresh \<and>
      binaries_of
        (stored (final_state (purge_run (purge_fs(''/repos/stale'' := Faulty EACCES)))))
        repo_fresh =
        binaries_of (stored (purge_world (purge_fs(''/repos/stale'' := Faulty EACCES))))
          repo_fresh \<and>
      filter (\<lambda>n. n = Deleted (rid repo_fresh))
        (emitted (purge_world (purge_fs(''/repos/stale'' := Faulty EACCES)))
           (final_state (purge_run (purge_fs(''/repos/stale'' := Faulty EACCES))))) = []"
    using bspec [OF u [THEN conjunct1] mem(2)] new by blast
  have dir: "fs (final_state (purge_run purge_fs)) ''/repos/stale'' = Missing"
    using stale vals(1) by simp
  show ?thesis
    using pre(1) keys(1,2) [of purge_fs] old new ok bad kept stale fresh fresh' dir
    by (simp only: vals simp_thms)
qed

text \<open>
  C9. When the option \<^verbatim>\<open>purge_repos\<close> is unset or set to \<^verbatim>\<open>False\<close>, a run of
  \<open>purge_repos\<close> ends normally in the state it started in, whatever that state holds.
\<close>

theorem purge_repos_disabled:
  assumes "conf_purge_repos cf = None \<or> conf_purge_repos cf = Some False"
  shows "purge_repos cf now_arg utcnow w = Inr w"
  using assms by (auto simp: purge_repos_def)

theorem purge_repos_disabled_witness:
  "conf_purge_repos (example_conf\<lparr>conf_purge_repos := None\<rparr>) = None \<and>
   repo_stale \<in> set (repos (stored (purge_world purge_fs))) \<and>
   modified repo_stale < purge_now - two_weeks \<and>
   purge_repos (example_conf\<lparr>conf_purge_repos := None\<rparr>) (Some purge_now) 0
     (purge_world purge_fs) = Inr (purge_world purge_fs) \<and>
   purge_repos (example_conf\<lparr>conf_purge_repos := Some False\<rparr>) (Some purge_now) 0
     (purge_world purge_fs) = Inr (purge_world purge_fs)"
  using purge_repos_disabled
      [of "example_conf\<lparr>conf_purge_repos := None\<rparr>" "Some purge_now" 0 "purge_world purge_fs"]
    purge_repos_disabled
      [of "example_conf\<lparr>conf_purge_repos := Some False\<rparr>" "Some purge_now" 0
        "purge_world purge_fs"]
  by (simp add: purge_example_defs two_weeks_def)

text \<open>
  C5: the code at the failing input. The storage directory of the stale Repo does not
  exist; \<^verbatim>\<open>shutil.rmtree\<close> raises \<^verbatim>\<open>ENOENT\<close>, the handler raises it again, and the task
  ends with that error: the row of the Repo is still stored and no notification was
  emitted.
\<close>

theorem purge_repos_missing_directory_raises:
  "conf_purge_repos example_conf = Some True \<and>
   modified repo_stale < purge_now - two_weeks \<and>
   path repo_stale = Some ''/repos/stale'' \<and>
   (purge_fs(''/repos/stale'' := Missing)) ''/repos/stale'' = Missing \<and>
   raised (purge_run (purge_fs(''/repos/stale'' := Missing))) = Some ENOENT \<and>
   repo_get 1 (stored (final_state (purge_run (purge_fs(''/repos/stale'' := Missing))))) =
     Some repo_stale \<and>
   notifications (final_state (purge_run (purge_fs(''/repos/stale'' := Missing)))) = []"
  by (simp add: purge_eval)

text \<open>
  C6: the code at the failing input. The file of the first Binary of the stale Repo cannot
  be removed (\<^verbatim>\<open>EACCES\<close>); the handler swallows the error, the run ends normally, the
  rows of both Binaries of the Repo and the row of the Repo are deleted, and the file is
  still there.
\<close>

theorem purge_repos_undeletable_file_swallowed:
  "conf_purge_repos example_conf = Some True \<and>
   modified repo_stale < purge_now - two_weeks \<and>
   binaries_of (stored (purge_world (purge_fs(''/binaries/a.deb'' := Faulty EACCES)))) repo_stale =
     [\<lparr>bid = 10, repo_id = 1, bpath = ''/binaries/a.deb''\<rparr>,
      \<lparr>bid = 11, repo_id = 1, bpath = ''/binaries/b.deb''\<rparr>] \<and>
   os_remove (purge_fs(''/binaries/a.deb'' := Faulty EACCES)) ''/binaries/a.deb'' = Inl EACCES \<and>
   raised (purge_run (purge_fs(''/binaries/a.deb'' := Faulty EACCES))) = None \<and>
   binaries (stored (final_state (purge_run (purge_fs(''/binaries/a.deb'' := Faulty EACCES))))) =
     [\<lparr>bid = 12, repo_id = 2, bpath = ''/binaries/c.rpm''\<rparr>] \<and>
   repos (stored (final_state (purge_run (purge_fs(''/binaries/a.deb'' := Faulty EACCES))))) =
     [repo_fresh] \<and>
   fs (final_state (purge_run (purge_fs(''/binaries/a.deb'' := Faulty EACCES))))
     ''/binaries/a.deb'' = Faulty EACCES \<and>
   notifications (final_state (purge_run (purge_fs(''/binaries/a.deb'' := Faulty EACCES)))) =
     [Deleted 1]"
  by (simp add: purge_eval)

section \<open>Claims about callback\<close>

lemmas callback_eval = callback_def serialize_def target_url_def os_path_join_def
  raise_for_status_def example_services_def example_conf_def Let_def suffix_to_prefix

text \<open>
  C7 as stated fails for a serialization failure that is not a \<^verbatim>\<open>TypeError\<close>. On a
  dictionary that holds itself \<^verbatim>\<open>json.dumps\<close> raises \<^verbatim>\<open>ValueError\<close>; the handler is
  \<^verbatim>\<open>except TypeError\<close>, so the exception leaves the task and the task logs nothing about
  it (the one entry is the debug line written before the encoding).
\<close>

theorem callback_value_error_leaves_task:
  "json_dumps example_services Circular = Inl ValueError \<and>
   callback example_conf example_services (Dict Circular) ''ceph'' None =
     \<lparr>outcome = Raised ValueError, posted = [],
      logged = [Debug ''callback for url: http://ci.example.com/callbacks/ceph/'']\<rparr>"
  by (simp add: callback_eval)

text \<open>
  C7, amended. The task ends with \<^verbatim>\<open>raise self.retry(...)\<close> exactly when it made the POST
  and the response has a status from 400 to 599. When \<^verbatim>\<open>json.dumps\<close> fails on the
  dictionary, with whatever exception, the task ends without a retry and without a POST;
  when the failure is a \<^verbatim>\<open>TypeError\<close> (and the address and the credentials are there,
  so that the encoding is reached) the task logs \<^verbatim>\<open>could not serialize data\<close> and
  returns \<^verbatim>\<open>False\<close>. When the POST itself raises, the task logs
  \<^verbatim>\<open>fatal error trying to POST callback\<close> and ends normally, without a retry.
\<close>

theorem callback_retries_only_on_http_error:
  "(outcome (callback cf sv data project_name url) = Retry \<longleftrightarrow>
      (\<exists>req resp. posted (callback cf sv data project_name url) = [req] \<and>
         requests_post sv req = Inr resp \<and>
         400 \<le> status_code resp \<and> status_code resp < 600)) \<and>
   (\<forall>d err. data = Dict d \<and> json_dumps sv d = Inl err \<longrightarrow>
      outcome (callback cf sv data project_name url) \<noteq> Retry \<and>
      posted (callback cf sv data project_name url) = [] \<and>
      (\<forall>u user key. err = TypeError \<and> target_url cf project_name url = Some u \<and>
         callback_user cf = Some user \<and> callback_key cf = Some key \<longrightarrow>
         callback cf sv data project_name url =
           \<lparr>outcome = Returned_False, posted = [],
            logged = [Debug (''callback for url: '' @ u),
                      Exception ''could not serialize data'']\<rparr>)) \<and>
   (\<forall>req e. posted (callback cf sv data project_name url) = [req] \<and>
      requests_post sv req = Inl e \<longrightarrow>
      outcome (callback cf sv data project_name url) = Returned_None \<and>
      Exception ''fatal error trying to POST callback''
        \<in> set (logged (callback cf sv data project_name url)))"
proof (intro conjI allI impI)
  show "outcome (callback cf sv data project_name url) = Retry \<longleftrightarrow>
      (\<exists>req resp. posted (callback cf sv data project_name url) = [req] \<and>
         requests_post sv req = Inr resp \<and>
         400 \<le> status_code resp \<and> status_code resp < 600)"
    by (auto simp: callback_def Let_def raise_for_status_def
        split: option.splits sum.splits if_splits)
next
  fix d err assume "data = Dict d \<and> json_dumps sv d = Inl err"
  then show "outcome (callback cf sv data project_name url) \<noteq> Retry"
    by (auto simp: callback_def serialize_def Let_def split: option.splits)
next
  fix d err assume "data = Dict d \<and> json_dumps sv d = Inl err"
  then show "posted (callback cf sv data project_name url) = []"
    by (auto simp: callback_def serialize_def Let_def split: option.splits)
next
  fix d err u user key
  assume "data = Dict d \<and> json_dumps sv d = Inl err"
    and "err = TypeError \<and> target_url cf project_name url = Some u \<and>
         callback_user cf = Some user \<and> callback_key cf = Some key"
  then show "callback cf sv data project_name url =
           \<lparr>outcome = Returned_False, posted = [],
            logged = [Debug (''callback for url: '' @ u),
                      Exception ''could not serialize data'']\<rparr>"
    by (simp add: callback_def serialize_def Let_def)
next
  fix req e
  assume a: "posted (callback cf sv data project_name url) = [req] \<and>
      requests_post sv req = Inl e"
  then show "outcome (callback cf sv data project_name url) = Returned_None"
    by (auto simp: callback_def Let_def split: option.splits sum.splits if_splits)
  from a show "Exception ''fatal error trying to POST callback''
        \<in> set (logged (callback cf sv data project_name url))"
    by (auto simp: callback_def Let_def split: option.splits sum.splits if_splits)
qed

theorem callback_retries_only_on_http_error_witness:
  "callback example_conf example_services (Dict (Plain ''{}'')) ''ceph''
     (Some ''http://failing.example.com/'') =
     \<lparr>outcome = Retry,
      posted = [\<lparr>req_url = ''http://failing.example.com/'', req_data = ''{}'',
                 req_auth = (''admin'', ''secret''), req_verify = True,
                 req_headers = [(''Content-type'', ''application/json'')]\<rparr>],
      logged = [Debug ''callback for url: http://failing.example.com/'',
                Warning ''callback failed: 500 Server Error: Internal Server Error'']\<rparr> \<and>
   requests_post example_services
     \<lparr>req_url = ''http://failing.example.com/'', req_data = ''{}'',
      req_auth = (''admin'', ''secret''), req_verify = True,
      req_headers = [(''Content-type'', ''application/json'')]\<rparr> =
     Inr \<lparr>status_code = 500, error_text = ''500 Server Error: Internal Server Error''\<rparr> \<and>
   json_dumps example_services With_datetime = Inl TypeError \<and>
   target_url example_conf ''ceph'' None = Some ''http://ci.example.com/callbacks/ceph/'' \<and>
   callback example_conf example_services (Dict With_datetime) ''ceph'' None =
     \<lparr>outcome = Returned_False, posted = [],
      logged = [Debug ''callback for url: http://ci.example.com/callbacks/ceph/'',
                Exception ''could not serialize data'']\<rparr> \<and>
   json_dumps example_services Circular = Inl ValueError \<and>
   outcome (callback example_conf example_services (Dict Circular) ''ceph'' None) \<noteq> Retry \<and>
   posted (callback example_conf example_services (Dict Circular) ''ceph'' None) = [] \<and>
   requests_post example_services
     \<lparr>req_url = ''http://down.example.com/'', req_data = ''{}'',
      req_auth = (''admin'', ''secret''), req_verify = True,
      req_headers = [(''Content-type'', ''application/json'')]\<rparr> = Inl ConnectionError \<and>
   posted (callback example_conf example_services (Encoded ''{}'') ''ceph''
     (Some ''http://down.example.com/'')) =
     [\<lparr>req_url = ''http://down.example.com/'', req_data = ''{}'',
       req_auth = (''admin'', ''secret''), req_verify = True,
       req_headers = [(''Content-type'', ''application/json'')]\<rparr>] \<and>
   outcome (callback example_conf example_services (Encoded ''{}'') ''ceph''
     (Some ''http://down.example.com/'')) = Returned_None \<and>
   Exception ''fatal error trying to POST callback''
     \<in> set (logged (callback example_conf example_services (Encoded ''{}'') ''ceph''
          (Some ''http://down.example.com/'')))"
proof -
  note t1 = callback_retries_only_on_http_error
    [of example_conf example_services "Dict (Plain ''{}'')" "''ceph''"
      "Some ''http://failing.example.com/''"]
  note t2 = callback_retries_only_on_http_error
    [of example_conf example_services "Dict With_datetime" "''ceph''" None]
  note t3 = callback_retries_only_on_http_error
    [of example_conf example_services "Encoded ''{}''" "''ceph''"
      "Some ''http://down.example.com/''"]
  note t4 = callback_retries_only_on_http_error
    [of example_conf example_services "Dict Circular" "''ceph''" None]
  have r1: "callback example_conf example_services (Dict (Plain ''{}'')) ''ceph''
     (Some ''http://failing.example.com/'') =
     \<lparr>outcome = Retry,
      posted = [\<lparr>req_url = ''http://failing.example.com/'', req_data = ''{}'',
                 req_auth = (''admin'', ''secret''), req_verify = True,
                 req_headers = [(''Content-type'', ''application/json'')]\<rparr>],
      logged = [Debug ''callback for url: http://failing.example.com/'',
                Warning ''callback failed: 500 Server Error: Internal Server Error'']\<rparr>"
    by (simp add: callback_eval)
  have p1: "requests_post example_services
     \<lparr>req_url = ''http://failing.example.com/'', req_data = ''{}'',
      req_auth = (''admin'', ''secret''), req_verify = True,
      req_headers = [(''Content-type'', ''application/json'')]\<rparr> =
     Inr \<lparr>status_code = 500, error_text = ''500 Server Error: Internal Server Error''\<rparr>"
    by (simp add: example_services_def)
  have o1: "outcome (callback example_conf example_services (Dict (Plain ''{}'')) ''ceph''
     (Some ''http://failing.example.com/'')) = Retry"
    using t1 r1 p1 by simp
  have d2: "json_dumps example_services With_datetime = Inl TypeError"
    by (simp add: example_services_def)
  have u2: "target_url example_conf ''ceph'' None = Some ''http://ci.example.com/callbacks/ceph/''"
    by (simp add: callback_eval)
  have c2: "callback_user example_conf = Some ''admin''" "callback_key example_conf = Some ''secret''"
    by (simp_all add: example_conf_def)
  have r2: "callback example_conf example_services (Dict With_datetime) ''ceph'' None =
     \<lparr>outcome = Returned_False, posted = [],
      logged = [Debug (''callback for url: '' @ ''http://ci.example.com/callbacks/ceph/''),
                Exception ''could not serialize data'']\<rparr>"
    using t2 d2 u2 c2 by blast
  have d4: "json_dumps example_services Circular = Inl ValueError"
    by (simp add: example_services_def)
  have r4: "outcome (callback example_conf example_services (Dict Circular) ''ceph'' None) \<noteq> Retry \<and>
      posted (callback example_conf example_services (Dict Circular) ''ceph'' None) = []"
    using t4 d4 by blast
  have p3: "requests_post example_services
     \<lparr>req_url = ''http://down.example.com/'', req_data = ''{}'',
      req_auth = (''admin'', ''secret''), req_verify = True,
      req_headers = [(''Content-type'', ''application/json'')]\<rparr> = Inl ConnectionError"
    by (simp add: example_services_def)
  have s3: "posted (callback example_conf example_services (Encoded ''{}'') ''ceph''
     (Some ''http://down.example.com/'')) =
     [\<lparr>req_url = ''http://down.example.com/'', req_data = ''{}'',
       req_auth = (''admin'', ''secret''), req_verify = True,
       req_headers = [(''Content-type'', ''application/json'')]\<rparr>]"
    by (simp add: callback_eval)
  have r3: "outcome (callback example_conf example_services (Encoded ''{}'') ''ceph''
       (Some ''http://down.example.com/'')) = Returned_None \<and>
     Exception ''fatal error trying to POST callback''
       \<in> set (logged (callback example_conf example_services (Encoded ''{}'') ''ceph''
            (Some ''http://down.example.com/'')))"
    using t3 s3 p3 by blast
  show ?thesis
    using r1 o1 p1 d2 u2 r2 d4 r4 p3 s3 r3 by simp
qed

end
